theory Spec2Isabelle
  imports Complex_Main "HOL-Library.Char_ord" "HOL-Library.List_Lexorder" "HOL-Library.Multiset"
begin

text \<open>
  A shallow embedding of the scenario orchestrator and of the proxy endpoint manager of
  \<open>vertex-nano-banana-unlimited\<close> (packages \<open>app\<close>, \<open>proxy\<close> and \<open>steps\<close>). Every function of
  the source is a function here; what it reads from the browser, the network, the file
  system and the clock is an argument, and what it writes is part of its result. The
  definitions come first, then concrete runs, then the properties.
\<close>

section \<open>Strings, numbers and times of the Go runtime\<close>

text \<open>
  A Go \<open>string\<close> is a byte sequence: \<^typ>\<open>string\<close> here, one \<^typ>\<open>char\<close> per byte, compared
  bytewise (the order \<open>sort.Strings\<close> uses). Text is UTF-8.
\<close>

text \<open>\<open>strings.HasPrefix\<close> and \<open>strings.Contains\<close>.\<close>

fun HasPrefix :: "string \<Rightarrow> string \<Rightarrow> bool" where
  "HasPrefix s [] = True"
| "HasPrefix [] (p # ps) = False"
| "HasPrefix (c # cs) (p # ps) = (c = p \<and> HasPrefix cs ps)"

fun Contains :: "string \<Rightarrow> string \<Rightarrow> bool" where
  "Contains [] sub = (sub = [])"
| "Contains (c # cs) sub = (HasPrefix (c # cs) sub \<or> Contains cs sub)"

text \<open>
  \<open>strings.TrimSpace\<close> removes from both ends the runes for which \<open>unicode.IsSpace\<close> holds:
  the six ASCII ones, U+0085, U+00A0, U+1680, U+2000 to U+200A, U+2028, U+2029, U+202F,
  U+205F and U+3000. \<open>spaceRunes\<close> lists their UTF-8 encodings. A string starts with such a
  rune exactly when it starts with one of these byte sequences, and the decoding from the end
  (\<open>utf8.DecodeLastRuneInString\<close>) finds such a rune exactly when the string ends with one.
\<close>

definition spaceRunes :: "string list" where
  "spaceRunes =
     [[CHR 0x09], [CHR 0x0A], [CHR 0x0B], [CHR 0x0C], [CHR 0x0D], [CHR 0x20],
      [CHR 0xC2, CHR 0x85], [CHR 0xC2, CHR 0xA0],
      [CHR 0xE1, CHR 0x9A, CHR 0x80],
      [CHR 0xE2, CHR 0x80, CHR 0x80], [CHR 0xE2, CHR 0x80, CHR 0x81],
      [CHR 0xE2, CHR 0x80, CHR 0x82], [CHR 0xE2, CHR 0x80, CHR 0x83],
      [CHR 0xE2, CHR 0x80, CHR 0x84], [CHR 0xE2, CHR 0x80, CHR 0x85],
      [CHR 0xE2, CHR 0x80, CHR 0x86], [CHR 0xE2, CHR 0x80, CHR 0x87],
      [CHR 0xE2, CHR 0x80, CHR 0x88], [CHR 0xE2, CHR 0x80, CHR 0x89],
      [CHR 0xE2, CHR 0x80, CHR 0x8A],
      [CHR 0xE2, CHR 0x80, CHR 0xA8], [CHR 0xE2, CHR 0x80, CHR 0xA9],
      [CHR 0xE2, CHR 0x80, CHR 0xAF],
      [CHR 0xE2, CHR 0x81, CHR 0x9F],
      [CHR 0xE3, CHR 0x80, CHR 0x80]]"

text \<open>\<open>trimPrefixes ps s\<close> removes from the front of \<open>s\<close> one of \<open>ps\<close> after the other.\<close>

function trimPrefixes :: "string list \<Rightarrow> string \<Rightarrow> string" where
  "trimPrefixes ps s =
     (case filter (\<lambda>p. p \<noteq> [] \<and> HasPrefix s p) ps of
        [] \<Rightarrow> s
      | p # _ \<Rightarrow> trimPrefixes ps (drop (length p) s))"
  by pat_completeness auto
termination
proof (relation "measure (\<lambda>(ps, s). length s)")
  show "wf (measure (\<lambda>(ps, s). length s))" by simp
next
  fix ps :: "string list" and s p :: string and qs
  assume "filter (\<lambda>p. p \<noteq> [] \<and> HasPrefix s p) ps = p # qs"
  then have "p \<in> set (filter (\<lambda>p. p \<noteq> [] \<and> HasPrefix s p) ps)" by simp
  then have "p \<noteq> []" and "HasPrefix s p" by simp_all
  then have "s \<noteq> []" by (cases s; cases p) auto
  with \<open>p \<noteq> []\<close> show "((ps, drop (length p) s), (ps, s)) \<in> measure (\<lambda>(ps, s). length s)"
    by simp
qed

declare trimPrefixes.simps [simp del]

definition TrimSpace :: "string \<Rightarrow> string" where
  "TrimSpace s = rev (trimPrefixes (map rev spaceRunes) (rev (trimPrefixes spaceRunes s)))"

text \<open>
  \<open>strings.ToLower\<close> on the letters \<open>A\<close> to \<open>Z\<close> and on the two runes beyond ASCII whose lower
  case is an ASCII letter, U+0130 (\<open>i\<close>) and U+212A (\<open>k\<close>). Every other byte beyond ASCII is
  kept (the library maps the other upper-case runes to runes beyond ASCII, and a byte that
  is not UTF-8 to U+FFFD): the result is one of the ASCII words it is compared with here
  exactly when the library's is.
\<close>

definition lowerChar :: "char \<Rightarrow> char" where
  "lowerChar c = (let n = (of_char c :: int) in
                    if 65 \<le> n \<and> n \<le> 90 then char_of (n + 32) else c)"

fun ToLower :: "string \<Rightarrow> string" where
  "ToLower [] = []"
| "ToLower (c # s) =
     (if HasPrefix (c # s) [CHR 0xC4, CHR 0xB0] then CHR ''i'' # ToLower (drop 1 s)
      else if HasPrefix (c # s) [CHR 0xE2, CHR 0x84, CHR 0xAA] then CHR ''k'' # ToLower (drop 2 s)
      else lowerChar c # ToLower s)"

text \<open>\<open>strings.Split(s, sep)\<close> and \<open>strings.SplitN(s, sep, 2)\<close> for a one-byte separator.\<close>

fun Split :: "string \<Rightarrow> char \<Rightarrow> string list" where
  "Split [] sep = [[]]"
| "Split (c # cs) sep =
     (if c = sep then [] # Split cs sep
      else (case Split cs sep of [] \<Rightarrow> [[c]] | w # ws \<Rightarrow> (c # w) # ws))"

definition SplitN2 :: "string \<Rightarrow> char \<Rightarrow> string list" where
  "SplitN2 s sep =
     (if sep \<in> set s then [takeWhile (\<lambda>c. c \<noteq> sep) s, tl (dropWhile (\<lambda>c. c \<noteq> sep) s)]
      else [s])"

definition Join :: "string list \<Rightarrow> string \<Rightarrow> string" where
  "Join xs sep = (case xs of [] \<Rightarrow> [] | y # ys \<Rightarrow> foldl (\<lambda>acc z. acc @ sep @ z) y ys)"

text \<open>Decimal formatting (\<open>%d\<close>) and \<open>strconv.ParseInt(s, 10, 64)\<close>.\<close>

definition digitChar :: "int \<Rightarrow> char" where
  "digitChar d = char_of (48 + d)"

function natDigits :: "int \<Rightarrow> string" where
  "natDigits n = (if n < 10 then [digitChar n] else natDigits (n div 10) @ [digitChar (n mod 10)])"
  by pat_completeness auto
termination
  by (relation "measure nat") auto

declare natDigits.simps [simp del]

definition fmtInt :: "int \<Rightarrow> string" where
  "fmtInt i = (if i < 0 then CHR ''-'' # natDigits (- i) else natDigits i)"

definition isDigit :: "char \<Rightarrow> bool" where
  "isDigit c = (48 \<le> (of_char c :: int) \<and> (of_char c :: int) \<le> 57)"

definition digitsValue :: "string \<Rightarrow> int option" where
  "digitsValue ds =
     (if ds = [] \<or> \<not> list_all isDigit ds then None
      else Some (foldl (\<lambda>acc c. 10 * acc + ((of_char c :: int) - 48)) 0 ds))"

definition ParseInt :: "string \<Rightarrow> int option" where
  "ParseInt s =
     (case s of
        [] \<Rightarrow> None
      | c # r \<Rightarrow>
          (let neg = (c = CHR ''-'');
               ds = (if c = CHR ''+'' \<or> c = CHR ''-'' then r else s)
           in case digitsValue ds of
                None \<Rightarrow> None
              | Some un \<Rightarrow>
                  if \<not> neg \<and> 2 ^ 63 \<le> un then None
                  else if neg \<and> 2 ^ 63 < un then None
                  else Some (if neg then - un else un)))"

text \<open>
  An instant of \<open>time.Time\<close> is its number of nanoseconds since the Unix epoch. A \<open>Time\<close> holds
  the seconds since the year 1 in an \<open>int64\<close>, so the instants it can hold are the
  \<open>representable\<close> ones. The sums of \<open>time.Unix(ts, 0)\<close>, which is \<open>timeUnix ts\<close>, and of
  \<open>t.Unix()\<close>, which is \<open>unixOf t\<close>, wrap; \<open>t.Add(d)\<close> is \<open>t + d\<close>, and where that is not
  representable its seconds stay at the last ones that are; \<open>t.Before(u)\<close> is \<open>t < u\<close>.
\<close>

type_synonym time = int

definition int64 :: "int \<Rightarrow> int" where
  "int64 x = (x + 2 ^ 63) mod 2 ^ 64 - 2 ^ 63"

definition unixToInternal :: int where
  "unixToInternal = 62135596800"

definition timeUnix :: "int \<Rightarrow> time" where
  "timeUnix ts = (int64 (ts + unixToInternal) - unixToInternal) * 1000000000"

definition unixOf :: "time \<Rightarrow> int" where
  "unixOf t = int64 (t div 1000000000)"

definition representable :: "time \<Rightarrow> bool" where
  "representable t = (- (2 ^ 63) \<le> t div 1000000000 + unixToInternal
                      \<and> t div 1000000000 + unixToInternal < 2 ^ 63)"

definition Add :: "time \<Rightarrow> int \<Rightarrow> time" where
  "Add t d =
     (if representable (t + d) then t + d
      else ((if 0 < d then 2 ^ 63 - 1 else - (2 ^ 63 - 1)) - unixToInternal) * 1000000000
           + (t + d) mod 1000000000)"

definition Before :: "time \<Rightarrow> time \<Rightarrow> bool" where
  "Before t u = (t < u)"

definition Second :: int where
  "Second = 1000000000"

definition Minute :: int where
  "Minute = 60 * Second"

section \<open>Errors\<close>

text \<open>
  A Go \<open>error\<close> value, with the wrapping that \<open>fmt.Errorf\<close> builds kept as structure; a nil
  error is \<open>None\<close>. The names of the workflow steps carry their arguments, as the
  \<open>fmt.Sprintf\<close> calls of \<open>runScenario\<close> put them into the name.
\<close>

datatype float64 = Finite real | PosInf | NegInf | NaN

datatype stepName =
    AcceptTermsDialog
  | OpenModelSettingsStep
  | SetOutputResolutionTo string
  | SetAspectRatioTo string
  | SetTemperatureTo float64
  | EnterPromptText
  | UploadLocalImage
  | SubmitPromptStep

datatype error =
    Msg string                 \<comment> \<open>\<open>errors.New(text)\<close>, or an error raised outside this code\<close>
  | Errorf string error        \<comment> \<open>\<open>fmt.Errorf("text: %w", err)\<close>\<close>
  | StepFailed stepName error  \<comment> \<open>\<open>fmt.Errorf("%s: %w", name, err)\<close>\<close>
  | StepNotCompleted stepName  \<comment> \<open>\<open>fmt.Errorf("%s not completed", name)\<close>\<close>
  | ScenarioFailed int error   \<comment> \<open>\<open>fmt.Errorf("scenario %d: %w", id, err)\<close>\<close>

text \<open>Comparison of \<open>float64\<close> values; every comparison with \<open>NaN\<close> is false.\<close>

fun fless :: "float64 \<Rightarrow> float64 \<Rightarrow> bool" where
  "fless NaN y = False"
| "fless x NaN = False"
| "fless (Finite a) (Finite b) = (a < b)"
| "fless NegInf NegInf = False"
| "fless NegInf y = True"
| "fless x NegInf = False"
| "fless PosInf y = False"
| "fless x PosInf = True"

fun fleq :: "float64 \<Rightarrow> float64 \<Rightarrow> bool" where
  "fleq NaN y = False"
| "fleq x NaN = False"
| "fleq (Finite a) (Finite b) = (a \<le> b)"
| "fleq NegInf y = True"
| "fleq x PosInf = True"
| "fleq x NegInf = False"
| "fleq PosInf y = False"

section \<open>Endpoint penalty ledger (package proxy)\<close>

record Endpoint =
  Tag :: string
  URL :: string

text \<open>
  What \<open>os.ReadFile\<close> returns for the ledger file \<open>tmp/singbox_penalty.txt\<close>: an error for
  which \<open>os.IsNotExist\<close> holds, another error, or the bytes of the file.
\<close>

datatype readResult = NotExist | ReadError error | Contents string

type_synonym penalties = "(string \<times> time) list"

text \<open>
  The map \<open>map[string]time.Time\<close> is a list of pairs with distinct keys;
  \<open>penalties[k] = v\<close> is \<open>assign k v\<close>.
\<close>

fun assign :: "string \<Rightarrow> 'v \<Rightarrow> (string \<times> 'v) list \<Rightarrow> (string \<times> 'v) list" where
  "assign k v [] = [(k, v)]"
| "assign k v ((k', v') # m) = (if k = k' then (k, v) # m else (k', v') # assign k v m)"

text \<open>The loop body of \<open>readPenaltiesFile\<close>, one line of the file.\<close>

definition readLine :: "penalties \<Rightarrow> string \<Rightarrow> penalties" where
  "readLine ps line0 =
     (let line = TrimSpace line0 in
      if line = [] then ps
      else (case SplitN2 line (CHR '','') of
              [k, v] \<Rightarrow> (case ParseInt (TrimSpace v) of
                           Some ts \<Rightarrow> assign (TrimSpace k) (timeUnix ts) ps
                         | None \<Rightarrow> ps)
            | _ \<Rightarrow> ps))"

definition readPenaltiesFile :: "readResult \<Rightarrow> error + penalties" where
  "readPenaltiesFile r =
     (case r of
        NotExist \<Rightarrow> Inr []
      | ReadError e \<Rightarrow> Inl e
      | Contents d \<Rightarrow> Inr (foldl readLine [] (Split d (CHR 0x0A))))"

text \<open>
  \<open>filterPenalized\<close>: the error of \<open>readPenaltiesFile\<close> is dropped, which leaves the nil
  map, where every lookup misses.
\<close>

fun filterLoop :: "penalties \<Rightarrow> time \<Rightarrow> Endpoint list \<Rightarrow> Endpoint list \<Rightarrow> Endpoint list" where
  "filterLoop ps now out [] = out"
| "filterLoop ps now out (ep # eps) =
     (case map_of ps (Tag ep) of
        Some expiry \<Rightarrow> if Before now expiry then filterLoop ps now out eps
                       else filterLoop ps now (out @ [ep]) eps
      | None \<Rightarrow> filterLoop ps now (out @ [ep]) eps)"

definition filterPenalized :: "readResult \<Rightarrow> time \<Rightarrow> Endpoint list \<Rightarrow> Endpoint list" where
  "filterPenalized r now endpoints =
     (let penalties = (case readPenaltiesFile r of Inl e \<Rightarrow> [] | Inr ps \<Rightarrow> ps)
      in filterLoop penalties now [] endpoints)"

text \<open>
  The ledger on disk and the outcome of the input and output on it. The \<open>k\<close>-th call of
  \<open>savePenalty\<close> reads the clock \<open>clock k\<close> and meets the fault \<open>faults k\<close>; a write that fails
  leaves the file as it was. \<open>ledgerWrites\<close> lists the maps that \<open>os.WriteFile\<close> has stored,
  oldest first.
\<close>

datatype fault = NoFault | ReadFails error | WriteFails error

record ledgerIO =
  clock :: "nat \<Rightarrow> time"
  faults :: "nat \<Rightarrow> fault"

record world =
  penaltyFile :: "string option"
  ledgerWrites :: "penalties list"
  ioCalls :: nat

definition osReadFile :: "fault \<Rightarrow> world \<Rightarrow> readResult" where
  "osReadFile flt w =
     (case flt of
        ReadFails e \<Rightarrow> ReadError e
      | _ \<Rightarrow> (case penaltyFile w of None \<Rightarrow> NotExist | Some d \<Rightarrow> Contents d))"

definition penaltyLine :: "string \<times> time \<Rightarrow> string" where
  "penaltyLine kv = fst kv @ '','' @ fmtInt (unixOf (snd kv))"

definition writePenaltiesFile :: "fault \<Rightarrow> penalties \<Rightarrow> world \<Rightarrow> error option \<times> world" where
  "writePenaltiesFile flt ps w =
     (if ps = [] then (None, w\<lparr>penaltyFile := None\<rparr>)
      else (case flt of
              WriteFails e \<Rightarrow> (Some e, w)
            | _ \<Rightarrow> (None, w\<lparr>penaltyFile := Some (Join (sort (map penaltyLine ps)) [CHR 0x0A]),
                            ledgerWrites := ledgerWrites w @ [ps]\<rparr>)))"

definition savePenalty :: "ledgerIO \<Rightarrow> string \<Rightarrow> int \<Rightarrow> world \<Rightarrow> error option \<times> world" where
  "savePenalty io tag dur w =
     (let k = ioCalls w; w1 = w\<lparr>ioCalls := Suc k\<rparr> in
      case readPenaltiesFile (osReadFile (faults io k) w1) of
        Inl e \<Rightarrow> (Some e, w1)
      | Inr ps \<Rightarrow> writePenaltiesFile (faults io k) (assign tag (Add (clock io k) dur) ps) w1)"

definition FreezeEndpoint :: "ledgerIO \<Rightarrow> string \<Rightarrow> world \<Rightarrow> error option \<times> world" where
  "FreezeEndpoint io tag0 w =
     (let tag = TrimSpace tag0 in
      if tag = [] then (None, w) else savePenalty io tag (15 * Minute) w)"

text \<open>
  What a later \<open>os.ReadFile\<close> that does not fail returns for the ledger of \<open>w\<close>; and what the
  ledger records for a tag: the expiry of its freeze, if it has one.
\<close>

definition onDisk :: "world \<Rightarrow> readResult" where
  "onDisk w = osReadFile NoFault w"

definition recordedExpiry :: "readResult \<Rightarrow> string \<Rightarrow> time option" where
  "recordedExpiry r tag = (case readPenaltiesFile r of Inl e \<Rightarrow> None | Inr ps \<Rightarrow> map_of ps tag)"





section \<open>Scenario workflow (package app, \<open>runScenario\<close>)\<close>

text \<open>
  Modelled from the spec: the type \<open>steps.DownloadOutcome\<close> and its three constants, whose
  declaration is not among the sources (a scenario's outcome is one of \<open>downloaded\<close>,
  \<open>exhausted\<close>, \<open>none\<close>).
\<close>

datatype DownloadOutcome =
  DownloadOutcomeDownloaded | DownloadOutcomeExhausted | DownloadOutcomeNone

record RunOptions =
  TargetURL :: string
  ImagePath :: string
  PromptText :: string
  DownloadDir :: string
  Headless :: bool
  ScenarioCount :: int
  StepPause :: int
  SubStepPause :: int
  OutputRes :: string
  AspectRatio :: string
  Temperature :: float64

text \<open>
  \<open>ScenarioResult\<close>; the field \<open>Error\<close> holds the error whose text the code stores there
  (\<open>None\<close> for the empty string).
\<close>

record ScenarioResult =
  ID :: int
  Outcome :: DownloadOutcome
  Path :: string
  URL' :: string
  ProxyTag :: string
  OutputRes' :: string
  AspectRatio' :: string
  Error :: "error option"

text \<open>A workflow step returns \<open>(ok, err)\<close>.\<close>

type_synonym stepResult = "bool \<times> error option"

text \<open>What the page answers to the calls of \<open>steps.SetTemperature\<close>.\<close>

record slider =
  containerVisible :: bool
  sliderInputVisible :: bool
  boundingBox :: "error option"
  sliderClick :: "error option"
  ariaValueText :: "error + string"

definition SetTemperature :: "slider \<Rightarrow> float64 \<Rightarrow> stepResult" where
  "SetTemperature sl temperature =
     (if fleq temperature (Finite 0) then (True, None)
      else if \<not> containerVisible sl then (False, None)
      else if \<not> sliderInputVisible sl then (False, None)
      else (case boundingBox sl of
              Some e \<Rightarrow> (False, Some e)
            | None \<Rightarrow>
                (case sliderClick sl of
                   Some e \<Rightarrow> (False, Some e)
                 | None \<Rightarrow>
                     (case ariaValueText sl of
                        Inl e \<Rightarrow> (False, None)
                      | Inr currentValue \<Rightarrow> (currentValue \<noteq> [], None)))))"

text \<open>
  What the browser, the page and the request context answer during one run of
  \<open>runScenario\<close>, call by call, in the order of the calls.
\<close>

record browser =
  ctxErrAtEntry :: "error option"
  newContext :: "error option"
  mkdirTraceDir :: "error option"
  tracingStart :: "error option"
  newPage :: "error option"
  pageGoto :: "error option"
  acceptTermsBlocking :: stepResult
  acceptCookieBar :: stepResult
  openModelSettings :: stepResult
  setOutputResolution :: stepResult
  setAspectRatio :: stepResult
  temperatureSlider :: slider
  enterPrompt :: stepResult
  promptLength :: int
  uploadLocalFile :: stepResult
  submitPrompt :: stepResult
  ctxErrAfterSubmit :: "error option"
  downloadImage :: "DownloadOutcome \<times> string \<times> error option"

text \<open>The calls a scenario makes, as they are recorded in its trace.\<close>

datatype action =
    NewContext
  | MkdirTraces
  | TracingStart
  | NewPage
  | Goto
  | Step stepName
  | AcceptCookieBar
  | PromptLength
  | DownloadImage
  | FreezeCall string
  | TracingStop
  | ContextClose

text \<open>
  The mutable state of one scenario: the flag \<open>penalized\<close> of the freeze guard, the ledger,
  whether the deferred stop of the tracing is registered, and the trace.
\<close>

record scn =
  penalized :: bool
  ledger :: world
  tracingDeferred :: bool
  trace :: "action list"

definition logA :: "action \<Rightarrow> scn \<Rightarrow> scn" where
  "logA a st = st\<lparr>trace := trace st @ [a]\<rparr>"

text \<open>The closure \<open>freeze\<close>; \<open>tag\<close> is \<open>res.ProxyTag\<close>.\<close>

definition freeze :: "ledgerIO \<Rightarrow> string \<Rightarrow> string \<Rightarrow> scn \<Rightarrow> scn" where
  "freeze io reason tag st =
     (if penalized st \<or> tag = [] then st
      else (case FreezeEndpoint io tag (ledger (logA (FreezeCall tag) st)) of
              (Some e, w) \<Rightarrow> (logA (FreezeCall tag) st)\<lparr>ledger := w\<rparr>
            | (None, w) \<Rightarrow> (logA (FreezeCall tag) st)\<lparr>ledger := w, penalized := True\<rparr>))"

text \<open>The closure \<open>fail\<close>.\<close>

definition fail ::
  "ledgerIO \<Rightarrow> ScenarioResult \<Rightarrow> string \<Rightarrow> error option \<Rightarrow> scn
     \<Rightarrow> (ScenarioResult \<times> error option) \<times> scn" where
  "fail io res reason err st =
     (let err' = (case err of None \<Rightarrow> Msg reason | Some e \<Rightarrow> e)
      in ((res, Some err'), freeze io reason (ProxyTag res) st))"

text \<open>The closure \<open>step\<close>: the error it returns for the result of the step's function.\<close>

definition step :: "stepName \<Rightarrow> stepResult \<Rightarrow> error option" where
  "step name r =
     (case snd r of
        Some e \<Rightarrow> Some (StepFailed name e)
      | None \<Rightarrow> if \<not> fst r then Some (StepNotCompleted name) else None)"

text \<open>
  The body of \<open>runScenario\<close> in three parts; \<open>Inl\<close> is a \<open>return\<close> from the function, \<open>Inr\<close>
  goes on with the next statement. First: browser context, trace directory, tracing, page
  and navigation.
\<close>

definition setupPhase ::
  "ledgerIO \<Rightarrow> browser \<Rightarrow> ScenarioResult \<Rightarrow> scn
     \<Rightarrow> ((ScenarioResult \<times> error option) \<times> scn) + scn" where
  "setupPhase io b res st0 =
     (let st1 = logA NewContext st0 in
      case newContext b of
        Some e \<Rightarrow> Inl (fail io res ''new context'' (Some (Errorf ''new context'' e)) st1)
      | None \<Rightarrow>
     (let st2 = logA MkdirTraces st1 in
      case mkdirTraceDir b of
        Some e \<Rightarrow> Inl (fail io res ''create trace dir'' (Some (Errorf ''create trace dir'' e)) st2)
      | None \<Rightarrow>
     (let st3 = logA TracingStart st2 in
      case tracingStart b of
        Some e \<Rightarrow> Inl (fail io res ''start tracing'' (Some (Errorf ''start tracing'' e)) st3)
      | None \<Rightarrow>
     (let st4 = logA NewPage (st3\<lparr>tracingDeferred := True\<rparr>) in
      case newPage b of
        Some e \<Rightarrow> Inl (fail io res ''new page'' (Some (Errorf ''new page'' e)) st4)
      | None \<Rightarrow>
     (let st5 = logA Goto st4 in
      case pageGoto b of
        Some e \<Rightarrow> Inl (fail io res ''goto'' (Some e) st5)
      | None \<Rightarrow> Inr st5)))))"

text \<open>Second: the terms dialog, the cookie bar and the model settings.\<close>

definition settingsPhase ::
  "ledgerIO \<Rightarrow> browser \<Rightarrow> RunOptions \<Rightarrow> ScenarioResult \<Rightarrow> scn
     \<Rightarrow> ((ScenarioResult \<times> error option) \<times> scn) + scn" where
  "settingsPhase io b opts res st0 =
     (let st1 = logA (Step AcceptTermsDialog) st0 in
      case step AcceptTermsDialog (acceptTermsBlocking b) of
        Some e \<Rightarrow> Inl (fail io res ''accept terms'' (Some e) st1)
      | None \<Rightarrow>
     (let st2 = logA AcceptCookieBar st1 in
      case snd (acceptCookieBar b) of
        Some e \<Rightarrow> Inl (fail io res ''accept cookies bar'' (Some e) st2)
      | None \<Rightarrow>
     (let st3 = logA (Step OpenModelSettingsStep) st2 in
      case step OpenModelSettingsStep (openModelSettings b) of
        Some e \<Rightarrow> Inl (fail io res ''open model settings'' (Some e) st3)
      | None \<Rightarrow>
     (let st4 = logA (Step (SetOutputResolutionTo (OutputRes opts))) st3 in
      case step (SetOutputResolutionTo (OutputRes opts)) (setOutputResolution b) of
        Some e \<Rightarrow> Inl (fail io res ''set output resolution'' (Some e) st4)
      | None \<Rightarrow>
     (let st5 = logA (Step (SetAspectRatioTo (AspectRatio opts))) st4 in
      case step (SetAspectRatioTo (AspectRatio opts)) (setAspectRatio b) of
        Some e \<Rightarrow> Inl (fail io res ''set aspect ratio'' (Some e) st5)
      | None \<Rightarrow>
          if fless (Finite 0) (Temperature opts) then
            (let st6 = logA (Step (SetTemperatureTo (Temperature opts))) st5 in
             case step (SetTemperatureTo (Temperature opts))
                       (SetTemperature (temperatureSlider b) (Temperature opts)) of
               Some e \<Rightarrow> Inl (fail io res ''set temperature'' (Some e) st6)
             | None \<Rightarrow> Inr st6)
          else Inr st5)))))"

text \<open>Third: prompt, upload, submission and the check of the context.\<close>

definition promptPhase ::
  "ledgerIO \<Rightarrow> browser \<Rightarrow> RunOptions \<Rightarrow> ScenarioResult \<Rightarrow> scn
     \<Rightarrow> ((ScenarioResult \<times> error option) \<times> scn) + scn" where
  "promptPhase io b opts res st0 =
     (let st1 = logA (Step EnterPromptText) st0 in
      case step EnterPromptText (enterPrompt b) of
        Some e \<Rightarrow> Inl (fail io res ''prompt input failed'' (Some e) st1)
      | None \<Rightarrow>
     (let st2 = logA PromptLength st1 in
      if promptLength b = 0
      then Inl (fail io res ''prompt is empty after entry''
                  (Some (Msg ''prompt is empty after entry'')) st2)
      else
     (case (if ImagePath opts \<noteq> []
            then (case step UploadLocalImage (uploadLocalFile b) of
                    Some e \<Rightarrow> Inl (fail io res ''upload failed'' (Some e)
                                     (logA (Step UploadLocalImage) st2))
                  | None \<Rightarrow> Inr (logA (Step UploadLocalImage) st2))
            else Inr st2) of
        Inl r \<Rightarrow> Inl r
      | Inr st3 \<Rightarrow>
     (let st4 = logA (Step SubmitPromptStep) st3 in
      case step SubmitPromptStep (submitPrompt b) of
        Some e \<Rightarrow> Inl (fail io res ''submit prompt failed'' (Some e) st4)
      | None \<Rightarrow>
          (case ctxErrAfterSubmit b of
             Some e \<Rightarrow> Inl (fail io res ''context done'' (Some e) st4)
           | None \<Rightarrow> Inr st4)))))"

text \<open>
  Last: the download and the switch on its outcome. \<open>filepath.ToSlash\<close> is the identity where
  the path separator is the slash.
\<close>

definition ToSlash :: "string \<Rightarrow> string" where
  "ToSlash p = p"

definition downloadPhase ::
  "ledgerIO \<Rightarrow> browser \<Rightarrow> ScenarioResult \<Rightarrow> scn \<Rightarrow> (ScenarioResult \<times> error option) \<times> scn" where
  "downloadPhase io b res0 st0 =
     (let st1 = logA DownloadImage st0;
          outcome = fst (downloadImage b);
          path = fst (snd (downloadImage b));
          err = snd (snd (downloadImage b));
          res1 = res0\<lparr>Outcome := outcome, Path := path\<rparr>;
          res = (if path \<noteq> [] then res1\<lparr>URL' := ''/'' @ ToSlash path\<rparr> else res1)
      in case err of
           Some e \<Rightarrow> fail io res ''download'' (Some (Errorf ''download'' e)) st1
         | None \<Rightarrow>
             (case outcome of
                DownloadOutcomeDownloaded \<Rightarrow> ((res, None), freeze io ''downloaded'' (ProxyTag res) st1)
              | DownloadOutcomeExhausted \<Rightarrow> ((res, None), freeze io ''exhausted'' (ProxyTag res) st1)
              | DownloadOutcomeNone \<Rightarrow> ((res, None), st1)))"

definition scenarioBody ::
  "ledgerIO \<Rightarrow> browser \<Rightarrow> RunOptions \<Rightarrow> ScenarioResult \<Rightarrow> scn
     \<Rightarrow> (ScenarioResult \<times> error option) \<times> scn" where
  "scenarioBody io b opts res st =
     (case setupPhase io b res st of
        Inl r \<Rightarrow> r
      | Inr st1 \<Rightarrow>
          (case settingsPhase io b opts res st1 of
             Inl r \<Rightarrow> r
           | Inr st2 \<Rightarrow>
               (case promptPhase io b opts res st2 of
                  Inl r \<Rightarrow> r
                | Inr st3 \<Rightarrow> downloadPhase io b res st3)))"

text \<open>
  The deferred calls, which run when the body has returned, last registered first: the stop
  of the tracing with the closing of the context, when registered, then \<open>freeze("defer")\<close>.
\<close>

definition deferred :: "ledgerIO \<Rightarrow> string \<Rightarrow> scn \<Rightarrow> scn" where
  "deferred io tag st =
     freeze io ''defer'' tag
       (if tracingDeferred st then logA ContextClose (logA TracingStop st) else st)"

text \<open>
  \<open>runScenario\<close>: the result, the error, and the state it leaves (ledger and trace). The
  arguments \<open>browser\<close>, \<open>viewport\<close> and \<open>engineName\<close> of the source are part of \<open>b\<close>.
\<close>

definition newResult :: "int \<Rightarrow> string \<Rightarrow> RunOptions \<Rightarrow> ScenarioResult" where
  "newResult sid proxyTag opts =
     \<lparr>ID = sid, Outcome = DownloadOutcomeNone, Path = [], URL' = [],
      ProxyTag = proxyTag, OutputRes' = OutputRes opts,
      AspectRatio' = AspectRatio opts, Error = None\<rparr>"

definition newScn :: "world \<Rightarrow> scn" where
  "newScn w = \<lparr>penalized = False, ledger = w, tracingDeferred = False, trace = []\<rparr>"

definition runScenario ::
  "ledgerIO \<Rightarrow> browser \<Rightarrow> string \<Rightarrow> string \<Rightarrow> int \<Rightarrow> RunOptions \<Rightarrow> string \<Rightarrow> world
     \<Rightarrow> (ScenarioResult \<times> error option) \<times> scn" where
  "runScenario io b proxyURL proxyTag sid opts batchFolder w =
     (let res = newResult sid proxyTag opts in
      case ctxErrAtEntry b of
        Some e \<Rightarrow> ((res, Some e), newScn w)
      | None \<Rightarrow>
          (case scenarioBody io b opts res (newScn w) of
             (r, st') \<Rightarrow> (r, deferred io proxyTag st')))"


definition isFreezeCall :: "action \<Rightarrow> bool" where
  "isFreezeCall a = (case a of FreezeCall t \<Rightarrow> True | _ \<Rightarrow> False)"

definition freezeCalls :: "scn \<Rightarrow> nat" where
  "freezeCalls st = length (filter isFreezeCall (trace st))"





definition temperatureStep :: "action \<Rightarrow> bool" where
  "temperatureStep a = (case a of Step (SetTemperatureTo t) \<Rightarrow> True | _ \<Rightarrow> False)"

definition untempered :: "scn \<Rightarrow> bool" where
  "untempered st = (\<not> list_ex temperatureStep (trace st))"

section \<open>Batch submission (package app, the handlers of \<open>/run\<close>)\<close>

definition Millisecond :: int where
  "Millisecond = 1000000"

text \<open>\<open>DefaultRunOptions\<close>; the argument is the value of \<open>DEFAULT_DOWNLOAD_DIR\<close>.\<close>

definition DefaultRunOptions :: "string \<Rightarrow> RunOptions" where
  "DefaultRunOptions envDownloadDir =
     \<lparr>TargetURL = ''https://console.cloud.google.com/vertex-ai/studio/multimodal;mode=prompt?model=gemini-3-pro-image-preview'',
      ImagePath = [],
      PromptText = [],
      DownloadDir = (if envDownloadDir = [] then ''tmp'' else envDownloadDir),
      Headless = True,
      ScenarioCount = 1,
      StepPause = Second,
      SubStepPause = 500 * Millisecond,
      OutputRes = ''4K'',
      AspectRatio = ''1:1'',
      Temperature = Finite 1\<rparr>"

text \<open>
  The body of a JSON submission, decoded. A handler either answers with a status and an
  error (\<open>Inl\<close>) or passes the options it has built to \<open>runWithExclusive\<close> (\<open>Inr\<close>). The
  texts of the errors that this code creates itself are given in English.
\<close>

record jsonRun =
  reqImage :: string
  reqPrompt :: string
  reqScenarioCount :: int
  reqResolution :: string
  reqTemperature :: float64
  reqAspectRatio :: string

text \<open>
  \<open>handleJSONRun\<close> up to the call of \<open>runWithExclusive\<close>; \<open>statErr\<close> is the error of
  \<open>os.Stat\<close> on the image and \<open>prepared\<close> the result of \<open>prepareImageForRun\<close>.
\<close>

definition handleJSONRun ::
  "string \<Rightarrow> jsonRun \<Rightarrow> error option \<Rightarrow> error + string \<Rightarrow> (int \<times> error) + RunOptions" where
  "handleJSONRun envDownloadDir req0 statErr prepared =
     (let req = req0\<lparr>reqPrompt := TrimSpace (reqPrompt req0),
                     reqImage := TrimSpace (reqImage req0),
                     reqResolution := TrimSpace (reqResolution req0)\<rparr>
      in if reqPrompt req = [] then Inl (400, Msg ''prompt empty'')
         else (case (if reqImage req \<noteq> [] then statErr else None) of
                 Some e \<Rightarrow> Inl (400, Errorf ''image unavailable'' e)
               | None \<Rightarrow>
              (case (if reqImage req \<noteq> [] then prepared else Inr []) of
                 Inl e \<Rightarrow> Inl (500, Errorf ''process image'' e)
               | Inr processedPath \<Rightarrow>
                   (let opts0 = DefaultRunOptions envDownloadDir;
                        opts1 = opts0\<lparr>ImagePath := processedPath, PromptText := reqPrompt req\<rparr>;
                        opts2 = (if reqResolution req \<noteq> []
                                 then opts1\<lparr>OutputRes := reqResolution req\<rparr> else opts1);
                        opts3 = (if 0 < reqScenarioCount req
                                 then opts2\<lparr>ScenarioCount := reqScenarioCount req\<rparr>
                                 else opts2\<lparr>ScenarioCount := 1\<rparr>);
                        opts4 = (if fless (Finite 0) (reqTemperature req)
                                 then opts3\<lparr>Temperature := reqTemperature req\<rparr> else opts3);
                        opts5 = (if reqAspectRatio req \<noteq> []
                                 then opts4\<lparr>AspectRatio := reqAspectRatio req\<rparr> else opts4)
                    in Inr opts5))))"

text \<open>
  A multipart submission: the form values as text, and what became of the file field
  \<open>image\<close>.
\<close>

datatype upload = MissingFile | FormFileError error | TempFileError error | Saved string

record multipartRun =
  formPrompt :: string
  formScenarioCount :: string
  formResolution :: string
  formAspectRatio :: string
  formTemperature :: string
  formImage :: upload

text \<open>
  \<open>handleMultipartRun\<close> up to the call of \<open>runWithExclusive\<close>. \<open>parseFloat\<close> stands for
  \<open>strconv.ParseFloat(s, 64)\<close>, \<open>None\<close> being an error; \<open>strconv.Atoi\<close> is \<open>ParseInt\<close>.
\<close>

definition handleMultipartRun ::
  "string \<Rightarrow> (string \<Rightarrow> float64 option) \<Rightarrow> error option \<Rightarrow> multipartRun \<Rightarrow> error + string
     \<Rightarrow> (int \<times> error) + RunOptions" where
  "handleMultipartRun envDownloadDir parseFloat parseFormErr form prepared =
     (case parseFormErr of
        Some e \<Rightarrow> Inl (400, Errorf ''parse form'' e)
      | None \<Rightarrow>
     (let prompt = TrimSpace (formPrompt form);
          scStr = TrimSpace (formScenarioCount form);
          scenarioCount = (if scStr \<noteq> []
                           then (case ParseInt scStr of
                                   Some n \<Rightarrow> if 0 < n then n else 1
                                 | None \<Rightarrow> 1)
                           else 1);
          resolution = TrimSpace (formResolution form);
          aspectRatio = TrimSpace (formAspectRatio form);
          tempStr = TrimSpace (formTemperature form);
          temperature = (if tempStr \<noteq> []
                         then (case parseFloat tempStr of
                                 Some t \<Rightarrow> if fleq (Finite 0) t \<and> fleq t (Finite 2) then t
                                           else Finite 0
                               | None \<Rightarrow> Finite 0)
                         else Finite 0)
      in case formImage form of
           FormFileError e \<Rightarrow> Inl (400, Errorf ''read image field'' e)
         | TempFileError e \<Rightarrow> Inl (500, e)
         | up \<Rightarrow>
             (let processedPath = (case up of Saved p \<Rightarrow> p | _ \<Rightarrow> [])
              in if prompt = [] then Inl (400, Msg ''prompt empty'')
                 else (case (if processedPath \<noteq> [] then prepared else Inr []) of
                         Inl e \<Rightarrow> Inl (500, Errorf ''process image'' e)
                       | Inr finalProcessPath \<Rightarrow>
                           (let opts0 = DefaultRunOptions envDownloadDir;
                                opts1 = opts0\<lparr>ImagePath := finalProcessPath, PromptText := prompt,
                                             ScenarioCount := scenarioCount\<rparr>;
                                opts2 = (if resolution \<noteq> []
                                         then opts1\<lparr>OutputRes := resolution\<rparr> else opts1);
                                opts3 = (if aspectRatio \<noteq> []
                                         then opts2\<lparr>AspectRatio := aspectRatio\<rparr> else opts2);
                                opts4 = (if fless (Finite 0) temperature
                                         then opts3\<lparr>Temperature := temperature\<rparr> else opts3)
                            in Inr opts4)))))"

section \<open>Subscriptions (package proxy)\<close>

text \<open>
  A decoded JSON value (\<open>any\<close>); an object is the list of its members, with distinct keys,
  and a number keeps its text. An outbound definition is such an object, \<open>map[string]any\<close>.
\<close>

datatype json =
    JNull
  | JBool bool
  | JNumber string
  | JString string
  | JArray "json list"
  | JObject "(string \<times> json) list"

type_synonym outbound = "(string \<times> json) list"

text \<open>The type assertion \<open>v, _ := x.(string)\<close> on a member that may be missing.\<close>

definition asString :: "json option \<Rightarrow> string" where
  "asString x = (case x of Some (JString s) \<Rightarrow> s | _ \<Rightarrow> [])"

definition tagOf :: "outbound \<Rightarrow> string" where
  "tagOf ob = asString (map_of ob ''tag'')"

definition typeOf :: "outbound \<Rightarrow> string" where
  "typeOf ob = asString (map_of ob ''type'')"

definition metaTypes :: "string list" where
  "metaTypes = [''selector'', ''urltest'', ''dns'', ''direct'', ''block'', ''tun'', ''mixed'']"

definition isRealOutboundType :: "string \<Rightarrow> bool" where
  "isRealOutboundType t0 =
     (let t = ToLower (TrimSpace t0) in if t \<in> set metaTypes then False else t \<noteq> [])"

definition hasRealOutbounds :: "outbound list \<Rightarrow> bool" where
  "hasRealOutbounds items = list_ex (\<lambda>ob. isRealOutboundType (typeOf ob)) items"

text \<open>The keywords of the blacklist, as the bytes of their UTF-8 text.\<close>

definition blacklist :: "string list" where
  "blacklist =
     [[CHR 0xE8, CHR 0x87, CHR 0xAA, CHR 0xE5, CHR 0x8A, CHR 0xA8, CHR 0xE9, CHR 0x80, CHR 0x89,
       CHR 0xE6, CHR 0x8B, CHR 0xA9],
      [CHR 0xE6, CHR 0x95, CHR 0x85, CHR 0xE9, CHR 0x9A, CHR 0x9C, CHR 0xE8, CHR 0xBD, CHR 0xAC,
       CHR 0xE7, CHR 0xA7, CHR 0xBB],
      [CHR 0xE5, CHR 0xA5, CHR 0x97, CHR 0xE9, CHR 0xA4, CHR 0x90, CHR 0xE5, CHR 0x88, CHR 0xB0,
       CHR 0xE6, CHR 0x9C, CHR 0x9F],
      [CHR 0xE5, CHR 0x89, CHR 0xA9, CHR 0xE4, CHR 0xBD, CHR 0x99, CHR 0xE6, CHR 0xB5, CHR 0x81,
       CHR 0xE9, CHR 0x87, CHR 0x8F],
      [CHR 0xE6, CHR 0x96, CHR 0x87, CHR 0xE6, CHR 0xA1, CHR 0xA3, CHR 0xE4, CHR 0xB8, CHR 0x8B,
       CHR 0xE8, CHR 0xBD, CHR 0xBD],
      [CHR 0xE8, CHR 0xAE, CHR 0xA2, CHR 0xE9, CHR 0x98, CHR 0x85, CHR 0xE6, CHR 0x9B, CHR 0xB4,
       CHR 0xE5, CHR 0xA4, CHR 0x9A, CHR 0xE8, CHR 0x8A, CHR 0x82, CHR 0xE7, CHR 0x82, CHR 0xB9]]"

definition shouldExcludeTag :: "string \<Rightarrow> bool" where
  "shouldExcludeTag tag = list_ex (\<lambda>kw. Contains tag kw) blacklist"

text \<open>
  What the fetch of one subscription URL yields up to \<open>json.Unmarshal\<close>: an error (of the
  request, of the transport, an empty body, a body that is not JSON), or the decoded
  document. \<open>fetchSubscription\<close> goes on from there.
\<close>

datatype response = FetchFailed error | Document "(string \<times> json) list"

fun realItems :: "json list \<Rightarrow> outbound list" where
  "realItems [] = []"
| "realItems (item # rest) =
     (case item of
        JObject m \<Rightarrow> if isRealOutboundType (typeOf m) then m # realItems rest
                     else realItems rest
      | _ \<Rightarrow> realItems rest)"

definition fetchSubscription :: "response \<Rightarrow> error + outbound list" where
  "fetchSubscription resp =
     (case resp of
        FetchFailed e \<Rightarrow> Inl e
      | Document cfg \<Rightarrow>
          (case map_of cfg ''outbounds'' of
             Some (JArray outboundsAny) \<Rightarrow> Inr (realItems outboundsAny)
           | _ \<Rightarrow> Inl (Msg ''subscription lacks outbounds'')))"

text \<open>
  \<open>normalizeOutbounds\<close>: the loop over the items from the index \<open>i\<close> on, with the map \<open>seen\<close>
  that it shares with the calls for the other subscriptions.
\<close>

type_synonym seen = "(string \<times> int) list"

definition origTagOf :: "nat \<Rightarrow> outbound \<Rightarrow> string" where
  "origTagOf i ob =
     (let origTag = TrimSpace (tagOf ob)
      in if origTag = [] then ''node-'' @ fmtInt (int i + 1) else origTag)"

definition retag :: "string \<Rightarrow> seen \<Rightarrow> string \<times> seen" where
  "retag tag seen =
     (case map_of seen tag of
        Some n \<Rightarrow> (tag @ ''-'' @ fmtInt (n + 1), assign tag (n + 1) seen)
      | None \<Rightarrow> (tag, assign tag 1 seen))"

fun normalizeFrom :: "nat \<Rightarrow> outbound list \<Rightarrow> string \<Rightarrow> seen \<Rightarrow> outbound list \<times> seen" where
  "normalizeFrom i [] prefix seen = ([], seen)"
| "normalizeFrom i (ob # items) prefix seen =
     (if shouldExcludeTag (origTagOf i ob) then normalizeFrom (Suc i) items prefix seen
      else (case retag (prefix @ origTagOf i ob) seen of
              (tag, seen') \<Rightarrow>
                (case normalizeFrom (Suc i) items prefix seen' of
                   (out, seen'') \<Rightarrow> (assign ''tag'' (JString tag) ob # out, seen''))))"

definition normalizeOutbounds :: "outbound list \<Rightarrow> string \<Rightarrow> seen \<Rightarrow> outbound list \<times> seen" where
  "normalizeOutbounds items prefix seen = normalizeFrom 0 items prefix seen"

text \<open>
  The cache file \<open>tmp/singbox/outbounds.json\<close> as \<open>loadOrFetchOutbounds\<close> sees it: \<open>NoCache\<close>
  when it cannot be read or decoded. The environment of a load: the answer to the fetch of
  the \<open>idx\<close>-th URL, and the error of writing the cache; a write that fails leaves the file
  as it was.
\<close>

datatype cacheFile = NoCache | Cache "outbound list"

record subsEnv =
  responses :: "nat \<Rightarrow> string \<Rightarrow> response"
  writeCacheErr :: "error option"

text \<open>
  The loop over the URLs from the index \<open>idx\<close> on; \<open>fetched\<close> lists the URLs fetched so far.
\<close>

fun fetchAll ::
  "subsEnv \<Rightarrow> nat \<Rightarrow> string list \<Rightarrow> seen \<Rightarrow> outbound list \<Rightarrow> string list
     \<Rightarrow> (error + outbound list) \<times> string list" where
  "fetchAll env idx [] seen merged fetched = (Inr merged, fetched)"
| "fetchAll env idx (u # us) seen merged fetched =
     (case fetchSubscription (responses env idx u) of
        Inl e \<Rightarrow> (Inl (Errorf (''fetch '' @ u) e), fetched @ [u])
      | Inr items \<Rightarrow>
          (case normalizeOutbounds items (''sub'' @ fmtInt (int idx + 1) @ ''-'') seen of
             (out, seen') \<Rightarrow> fetchAll env (Suc idx) us seen' (merged @ out) (fetched @ [u])))"

text \<open>
  \<open>loadOrFetchOutbounds\<close>: the result, the cache file afterwards, and the URLs fetched.
\<close>

definition usableCache :: "cacheFile \<Rightarrow> outbound list option" where
  "usableCache c =
     (case c of
        Cache out \<Rightarrow> if hasRealOutbounds out then Some out else None
      | NoCache \<Rightarrow> None)"

definition loadOrFetchOutbounds ::
  "subsEnv \<Rightarrow> string list \<Rightarrow> cacheFile \<Rightarrow> (error + outbound list) \<times> cacheFile \<times> string list" where
  "loadOrFetchOutbounds env urls c =
     (case usableCache c of
        Some out \<Rightarrow> (Inr out, c, [])
      | None \<Rightarrow>
          (case fetchAll env 0 urls [] [] [] of
             (Inl e, fetched) \<Rightarrow> (Inl e, c, fetched)
           | (Inr merged, fetched) \<Rightarrow>
               if merged = [] then (Inl (Msg ''subscriptions returned no outbounds''), c, fetched)
               else (case writeCacheErr env of
                       Some e \<Rightarrow> (Inl e, c, fetched)
                     | None \<Rightarrow> (Inr merged, Cache merged, fetched))))"

text \<open>
  For the statements about a load: the fetch of the URL at the position \<open>idx\<close> fails; and an
  entry comes from the subscription at the position \<open>idx\<close>, that is, it is an item that
  \<open>fetchSubscription\<close> returned for it, of a display name that is not excluded, with a new
  tag.
\<close>

definition fetchFails :: "subsEnv \<Rightarrow> string list \<Rightarrow> nat \<Rightarrow> bool" where
  "fetchFails env urls idx = isl (fetchSubscription (responses env idx (urls ! idx)))"

definition comesFrom :: "outbound list \<Rightarrow> outbound \<Rightarrow> bool" where
  "comesFrom items ob =
     (\<exists>i < length items. \<exists>t.
        ob = assign ''tag'' (JString t) (items ! i)
        \<and> \<not> shouldExcludeTag (origTagOf i (items ! i))
        \<and> \<not> shouldExcludeTag (tagOf (items ! i))
        \<and> isRealOutboundType (typeOf (items ! i)))"

section \<open>The local proxy process (package proxy, \<open>StartSingBox\<close>)\<close>

definition singboxBasePort :: int where
  "singboxBasePort = 17880"

text \<open>
  The endpoints that \<open>buildConfig\<close> returns, from the index \<open>i\<close> on (the configuration map it
  builds beside them is not modelled).
\<close>

fun buildEndpoints :: "nat \<Rightarrow> outbound list \<Rightarrow> Endpoint list" where
  "buildEndpoints i [] = []"
| "buildEndpoints i (ob # obs) =
     \<lparr>Tag = (if tagOf ob = [] then ''node-'' @ fmtInt (int i + 1) else tagOf ob),
      URL = ''socks5://127.0.0.1:'' @ fmtInt (singboxBasePort + int i)\<rparr>
       # buildEndpoints (Suc i) obs"

definition buildConfig :: "outbound list \<Rightarrow> Endpoint list" where
  "buildConfig outbounds = buildEndpoints 0 outbounds"

text \<open>
  Cancellation scopes: \<open>context.Background()\<close>, which is never cancelled, and the context of
  one run request. A started subprocess is ended by the cancellation of every scope in
  \<open>killedBy\<close>: the context given to \<open>exec.CommandContext\<close>, and every context on whose
  \<open>Done\<close> channel a goroutine waits before it calls \<open>stop\<close>, which kills the process.
\<close>

datatype scope = Background | Request

record process =
  alive :: bool
  killedBy :: "scope list"

definition cancelScope :: "scope \<Rightarrow> process \<Rightarrow> process" where
  "cancelScope s p = (if s \<in> set (killedBy p) then p\<lparr>alive := False\<rparr> else p)"

text \<open>
  The environment of \<open>StartSingBox\<close>: the subscription URLs that \<open>MergeEnvAndSaved\<close> returns,
  the errors of the calls it makes, and the ledger file and the clock that
  \<open>filterPenalized\<close> reads. The function returns the endpoints, the process that \<open>stop\<close>
  kills (\<open>None\<close> when \<open>stop\<close> does nothing), the error, and the cache file afterwards. The
  wait for the first port has no effect on what it returns.
\<close>

record singboxEnv =
  subscriptionURLs :: "string list"
  mkdirSingboxErr :: "error option"
  subscriptions :: subsEnv
  writeConfigErr :: "error option"
  ensureBinaryErr :: "error option"
  startErr :: "error option"
  penaltyRead :: readResult
  startedAt :: time

definition StartSingBox ::
  "scope \<Rightarrow> singboxEnv \<Rightarrow> cacheFile
     \<Rightarrow> Endpoint list \<times> process option \<times> error option \<times> cacheFile" where
  "StartSingBox ctx env c =
     (if subscriptionURLs env = [] then ([], None, None, c)
      else (case mkdirSingboxErr env of
              Some e \<Rightarrow> ([], None, Some (Errorf ''make sing-box dir'' e), c)
            | None \<Rightarrow>
     (case loadOrFetchOutbounds (subscriptions env) (subscriptionURLs env) c of
        (Inl e, c', fetched) \<Rightarrow> ([], None, Some (Errorf ''load subscriptions'' e), c')
      | (Inr outbounds, c', fetched) \<Rightarrow>
     (let endpoints = buildConfig outbounds in
      if endpoints = [] then ([], None, Some (Msg ''subscriptions gave no usable outbounds''), c')
      else (case writeConfigErr env of
              Some e \<Rightarrow> ([], None, Some (Errorf ''write config'' e), c')
            | None \<Rightarrow>
           (case ensureBinaryErr env of
              Some e \<Rightarrow> ([], None, Some (Errorf ''ensure binary'' e), c')
            | None \<Rightarrow>
           (case startErr env of
              Some e \<Rightarrow> ([], None, Some (Errorf ''start sing-box'' e), c')
            | None \<Rightarrow>
                (filterPenalized (penaltyRead env) (startedAt env) endpoints,
                 Some \<lparr>alive = True, killedBy = [ctx]\<rparr>, None, c'))))))))"

text \<open>
  \<open>pickProxyEndpoints\<close>, called with the context of the run request: the endpoints and the
  subprocess it leaves behind.
\<close>

definition pickProxyEndpoints ::
  "singboxEnv \<Rightarrow> cacheFile \<Rightarrow> Endpoint list \<times> process option" where
  "pickProxyEndpoints env c =
     (let processCtx = Background in
      case StartSingBox processCtx env c of
        (endpoints, stop, err, c') \<Rightarrow>
          if err = None \<and> endpoints \<noteq> []
          then (endpoints, map_option (\<lambda>p. p\<lparr>killedBy := killedBy p @ [Request]\<rparr>) stop)
          else ([], stop))"

section \<open>The orchestrator (package app, \<open>RunWithOptions\<close>)\<close>

text \<open>The defaults that \<open>RunWithOptions\<close> puts into the options it is given.\<close>

definition withDefaults :: "RunOptions \<Rightarrow> RunOptions" where
  "withDefaults opts0 =
     (let opts1 = (if ScenarioCount opts0 < 1 then opts0\<lparr>ScenarioCount := 1\<rparr> else opts0);
          opts2 = (if DownloadDir opts1 = [] then opts1\<lparr>DownloadDir := ''tmp''\<rparr> else opts1);
          opts3 = (if StepPause opts2 = 0 then opts2\<lparr>StepPause := Second\<rparr> else opts2);
          opts4 = (if SubStepPause opts3 = 0 then opts3\<lparr>SubStepPause := 500 * Millisecond\<rparr>
                   else opts3);
          opts5 = (if OutputRes opts4 = [] then opts4\<lparr>OutputRes := ''4K''\<rparr> else opts4);
          opts6 = (if AspectRatio opts5 = [] then opts5\<lparr>AspectRatio := ''1:1''\<rparr> else opts5)
      in opts6)"

text \<open>
  The workers that the launch loop starts, in the order of the loop, each with the arguments
  of its goroutine: the scenario id and the proxy URL and tag.
\<close>

record worker =
  wid :: int
  pURL :: string
  pTag :: string

definition runCountOf :: "RunOptions \<Rightarrow> Endpoint list \<Rightarrow> int" where
  "runCountOf opts assigned =
     (if length assigned > 0 \<and> ScenarioCount opts > int (length assigned)
      then int (length assigned) else ScenarioCount opts)"

definition launchWorkers :: "RunOptions \<Rightarrow> Endpoint list \<Rightarrow> worker list" where
  "launchWorkers opts assigned =
     map (\<lambda>i. if length assigned > 0
              then \<lparr>wid = int i + 1, pURL = URL (assigned ! i), pTag = Tag (assigned ! i)\<rparr>
              else \<lparr>wid = int i + 1, pURL = [], pTag = []\<rparr>)
         [0 ..< nat (runCountOf opts assigned)]"

text \<open>
  What a worker sends: its result on the result channel, with the error entered, and the
  wrapped error, if any, on the error channel. \<open>returned\<close> is what \<open>runScenario\<close> returned to it.
\<close>

definition workerSends ::
  "(worker \<Rightarrow> ScenarioResult \<times> error option) \<Rightarrow> worker \<Rightarrow> ScenarioResult \<times> error option" where
  "workerSends returned wk =
     (case returned wk of
        (res, Some err) \<Rightarrow> (res\<lparr>Error := Some err\<rparr>, Some (ScenarioFailed (wid wk) err))
      | (res, None) \<Rightarrow> (res, None))"

text \<open>
  The content of a channel when it is drained: the values of the workers in the order in
  which they were sent, \<open>order\<close> listing the workers by their position in the launch loop.
\<close>

definition drained :: "'a list \<Rightarrow> nat list \<Rightarrow> 'a list" where
  "drained sent order = concat (map (\<lambda>i. if i < length sent then [sent ! i] else []) order)"

definition justErrors :: "error option list \<Rightarrow> error list" where
  "justErrors es = concat (map (\<lambda>e. case e of Some x \<Rightarrow> [x] | None \<Rightarrow> []) es)"

text \<open>The loops after \<open>wg.Wait()\<close>: the first error, and whether a result is downloaded.\<close>

fun firstError :: "error option \<Rightarrow> error list \<Rightarrow> error option" where
  "firstError firstErr [] = firstErr"
| "firstError firstErr (e # es) = firstError (if firstErr = None then Some e else firstErr) es"

fun anySuccess :: "ScenarioResult list \<Rightarrow> bool" where
  "anySuccess [] = False"
| "anySuccess (r # rs) = (if Outcome r = DownloadOutcomeDownloaded then True else anySuccess rs)"

definition collect :: "ScenarioResult list \<Rightarrow> error list \<Rightarrow> ScenarioResult list \<times> error option" where
  "collect results errs =
     (if anySuccess results then (results, None) else (results, firstError None errs))"

text \<open>
  The environment of one batch: the error of the context at entry, the errors of the set-up
  calls, the endpoints that \<open>pickProxyEndpoints\<close> returned, what \<open>runScenario\<close> returned to each
  worker, and the orders in which the workers sent on the two channels.
\<close>

record batch =
  ctxDone :: "error option"
  mkdirDownloadErr :: "error option"
  proxyEndpoints :: "Endpoint list"
  playwrightErr :: "error option"
  launchErr :: "error option"
  returned :: "worker \<Rightarrow> ScenarioResult \<times> error option"
  resultOrder :: "nat list"
  errorOrder :: "nat list"

definition RunWithOptions :: "batch \<Rightarrow> RunOptions \<Rightarrow> ScenarioResult list \<times> error option" where
  "RunWithOptions env opts0 =
     (case ctxDone env of
        Some e \<Rightarrow> ([], Some e)
      | None \<Rightarrow>
          if TargetURL opts0 = [] then ([], Some (Msg ''TargetURL is empty''))
          else if PromptText opts0 = [] then ([], Some (Msg ''PromptText is empty''))
          else (let opts = withDefaults opts0 in
                case mkdirDownloadErr env of
                  Some e \<Rightarrow> ([], Some (Errorf ''make download dir'' e))
                | None \<Rightarrow>
               (case playwrightErr env of
                  Some e \<Rightarrow> ([], Some (Errorf ''start playwright'' e))
                | None \<Rightarrow>
               (case launchErr env of
                  Some e \<Rightarrow> ([], Some (Errorf ''launch browser'' e))
                | None \<Rightarrow>
                    (let sent = map (workerSends (returned env)) (launchWorkers opts (proxyEndpoints env));
                         results = drained (map fst sent) (resultOrder env);
                         errs = justErrors (drained (map snd sent) (errorOrder env))
                     in collect results errs)))))"

text \<open>
  The orders of a batch are schedules of its workers when each worker is listed once in
  the order of the results, and each worker that sends an error once in the order of the
  errors.
\<close>

definition schedules :: "batch \<Rightarrow> RunOptions \<Rightarrow> bool" where
  "schedules env opts0 =
     (let ws = launchWorkers (withDefaults opts0) (proxyEndpoints env) in
      distinct (resultOrder env) \<and> set (resultOrder env) = set [0 ..< length ws] \<and>
      distinct (errorOrder env) \<and>
      set (errorOrder env)
        = set (filter (\<lambda>i. snd (returned env (ws ! i)) \<noteq> None) [0 ..< length ws]))"

definition started :: "batch \<Rightarrow> RunOptions \<Rightarrow> bool" where
  "started env opts0 =
     (ctxDone env = None \<and> TargetURL opts0 \<noteq> [] \<and> PromptText opts0 \<noteq> [] \<and>
      mkdirDownloadErr env = None \<and> playwrightErr env = None \<and> launchErr env = None)"

section \<open>Concrete runs\<close>

text \<open>
  A ledger whose input and output never fails, with the clock at 1700000000 seconds; a
  browser on which every step succeeds and the image is downloaded; the options of a
  text-only batch; an empty ledger.
\<close>

definition soundIO :: ledgerIO where
  "soundIO = \<lparr>clock = (\<lambda>k. timeUnix 1700000000), faults = (\<lambda>k. NoFault)\<rparr>"

definition visibleSlider :: slider where
  "visibleSlider = \<lparr>containerVisible = True, sliderInputVisible = True, boundingBox = None,
                     sliderClick = None, ariaValueText = Inr ''1''\<rparr>"

definition okBrowser :: browser where
  "okBrowser =
     \<lparr>ctxErrAtEntry = None, newContext = None, mkdirTraceDir = None, tracingStart = None,
      newPage = None, pageGoto = None, acceptTermsBlocking = (True, None),
      acceptCookieBar = (False, None), openModelSettings = (True, None),
      setOutputResolution = (True, None), setAspectRatio = (True, None),
      temperatureSlider = visibleSlider, enterPrompt = (True, None), promptLength = 5,
      uploadLocalFile = (True, None), submitPrompt = (True, None), ctxErrAfterSubmit = None,
      downloadImage = (DownloadOutcomeDownloaded, ''tmp/text-only-1700000000/image.png'', None)\<rparr>"

definition catOptions :: RunOptions where
  "catOptions = (DefaultRunOptions [])\<lparr>PromptText := ''a cat''\<rparr>"

definition emptyLedger :: world where
  "emptyLedger = \<lparr>penaltyFile = None, ledgerWrites = [], ioCalls = 0\<rparr>"


definition timedOutRun :: "(ScenarioResult \<times> error option) \<times> scn" where
  "timedOutRun =
     runScenario soundIO (okBrowser\<lparr>downloadImage := (DownloadOutcomeNone, [], None)\<rparr>)
       ''socks5://127.0.0.1:17880'' ''sub1-a'' 1 catOptions ''text-only-1700000000'' emptyLedger"








text \<open>
  Two endpoints whose nodes are named \<open>US, NY\<close> and \<open>US NY\<close> in the first subscription, and
  the ledgers in which the one and the other has been frozen at 1700000000 seconds.
\<close>

definition commaEndpoint :: Endpoint where
  "commaEndpoint = \<lparr>Tag = ''sub1-US, NY'', URL = ''socks5://127.0.0.1:17880''\<rparr>"

definition plainEndpoint :: Endpoint where
  "plainEndpoint = \<lparr>Tag = ''sub1-US NY'', URL = ''socks5://127.0.0.1:17881''\<rparr>"

definition commaLedger :: world where
  "commaLedger = \<lparr>penaltyFile = Some ''sub1-US, NY,1700000900'',
                  ledgerWrites = [[(''sub1-US, NY'', timeUnix 1700000900)]], ioCalls = 1\<rparr>"

definition plainLedger :: world where
  "plainLedger = \<lparr>penaltyFile = Some ''sub1-US NY,1700000900'',
                  ledgerWrites = [[(''sub1-US NY'', timeUnix 1700000900)]], ioCalls = 1\<rparr>"

text \<open>
  A JSON submission with the temperature 0, and the scenario of the options built from it on
  a page where the temperature control is not visible.
\<close>

definition zeroTemperatureRequest :: jsonRun where
  "zeroTemperatureRequest =
     \<lparr>reqImage = [], reqPrompt = ''a cat'', reqScenarioCount = 1, reqResolution = [],
      reqTemperature = Finite 0, reqAspectRatio = []\<rparr>"

definition hiddenSlider :: slider where
  "hiddenSlider = visibleSlider\<lparr>containerVisible := False\<rparr>"

definition hiddenSliderRun :: "(ScenarioResult \<times> error option) \<times> scn" where
  "hiddenSliderRun =
     runScenario soundIO
       (okBrowser\<lparr>temperatureSlider := hiddenSlider\<rparr>)
       [] [] 1 catOptions ''text-only-1700000000'' emptyLedger"

text \<open>
  Options with the temperature 0, and a multipart submission with the temperature \<open>1.5\<close>
  together with what \<open>strconv.ParseFloat\<close> returns for that text.
\<close>

definition zeroTemperatureOptions :: RunOptions where
  "zeroTemperatureOptions = catOptions\<lparr>Temperature := Finite 0\<rparr>"

definition warmForm :: multipartRun where
  "warmForm = \<lparr>formPrompt = ''a cat'', formScenarioCount = ''1'', formResolution = [],
               formAspectRatio = [], formTemperature = ''1.5'', formImage = MissingFile\<rparr>"

definition parseOnePointFive :: "string \<Rightarrow> float64 option" where
  "parseOnePointFive s = (if s = ''1.5'' then Some (Finite (3 / 2)) else None)"

text \<open>
  Batches: the endpoints \<open>sub1-a\<close> and \<open>sub1-b\<close>; a request for three scenarios; a batch with
  both endpoints in which the second worker finishes first and fails while the first
  downloads; a batch without endpoints; and a batch of one worker whose scenario is
  \<open>timedOutRun\<close>.
\<close>

definition endpointA :: Endpoint where
  "endpointA = \<lparr>Tag = ''sub1-a'', URL = ''socks5://127.0.0.1:17880''\<rparr>"

definition endpointB :: Endpoint where
  "endpointB = \<lparr>Tag = ''sub1-b'', URL = ''socks5://127.0.0.1:17881''\<rparr>"

definition threeCats :: RunOptions where
  "threeCats = catOptions\<lparr>ScenarioCount := 3\<rparr>"

definition mixedBatch :: batch where
  "mixedBatch =
     \<lparr>ctxDone = None, mkdirDownloadErr = None, proxyEndpoints = [endpointA, endpointB],
      playwrightErr = None, launchErr = None,
      returned = (\<lambda>wk. if wid wk = 1
                        then ((newResult 1 (pTag wk) threeCats)\<lparr>Outcome := DownloadOutcomeDownloaded\<rparr>, None)
                        else (newResult (wid wk) (pTag wk) threeCats, Some (Msg ''goto failed''))),
      resultOrder = [1, 0], errorOrder = [1]\<rparr>"

definition failedBatch :: batch where
  "failedBatch =
     \<lparr>ctxDone = None, mkdirDownloadErr = None, proxyEndpoints = [endpointA, endpointB],
      playwrightErr = None, launchErr = None,
      returned = (\<lambda>wk. (newResult (wid wk) (pTag wk) threeCats,
                         Some (if wid wk = 1 then Msg ''goto failed'' else Msg ''new page failed''))),
      resultOrder = [1, 0], errorOrder = [1, 0]\<rparr>"

definition idleBatch :: batch where
  "idleBatch =
     \<lparr>ctxDone = None, mkdirDownloadErr = None, proxyEndpoints = [endpointA],
      playwrightErr = None, launchErr = None,
      returned = (\<lambda>wk. fst timedOutRun),
      resultOrder = [0], errorOrder = []\<rparr>"

text \<open>
  A start of the proxy: one subscription, whose cache holds two outbounds, and an empty
  ledger.
\<close>

definition cachedNodes :: cacheFile where
  "cachedNodes =
     Cache [[(''type'', JString ''vmess''), (''tag'', JString ''sub1-a'')],
            [(''type'', JString ''trojan''), (''tag'', JString ''sub1-b'')]]"

definition quietSingbox :: singboxEnv where
  "quietSingbox =
     \<lparr>subscriptionURLs = [''https://example.com/sub''], mkdirSingboxErr = None,
      subscriptions = \<lparr>responses = (\<lambda>idx u. FetchFailed (Msg ''offline'')),
                       writeCacheErr = None\<rparr>,
      writeConfigErr = None, ensureBinaryErr = None, startErr = None,
      penaltyRead = NotExist, startedAt = timeUnix 1700000000\<rparr>"

text \<open>
  Subscriptions: an outbound of the type \<open>vmess\<close> with a given tag; three outbounds whose
  tags are \<open>a\<close>, \<open>a\<close> and \<open>a-2\<close>; a document with a real outbound, a selector, an entry that is
  not an object and an outbound whose name holds the first keyword of the blacklist; and
  the environments in which every URL answers with that document, every URL answers with
  a document that holds a selector only, or the second URL fails.
\<close>

definition vmess :: "string \<Rightarrow> outbound" where
  "vmess t = [(''type'', JString ''vmess''), (''tag'', JString t)]"

definition collidingItems :: "outbound list" where
  "collidingItems = [vmess ''a'', vmess ''a'', vmess ''a-2'']"

definition sampleDocument :: "(string \<times> json) list" where
  "sampleDocument =
     [(''log'', JObject []),
      (''outbounds'',
       JArray [JObject (vmess ''tokyo''),
               JObject [(''type'', JString ''selector''), (''tag'', JString ''proxy'')],
               JString ''stray'',
               JObject (vmess (''plan '' @ hd blacklist)),
               JObject (vmess ''tokyo'')])]"

definition onlineSubs :: subsEnv where
  "onlineSubs = \<lparr>responses = (\<lambda>idx u. Document sampleDocument), writeCacheErr = None\<rparr>"

definition emptySubs :: subsEnv where
  "emptySubs =
     \<lparr>responses = (\<lambda>idx u. Document [(''outbounds'',
                          JArray [JObject [(''type'', JString ''selector''),
                                           (''tag'', JString ''proxy'')]])]),
      writeCacheErr = None\<rparr>"

definition flakySubs :: subsEnv where
  "flakySubs =
     \<lparr>responses = (\<lambda>idx u. if idx = 1 then FetchFailed (Msg ''timeout'')
                             else Document sampleDocument),
      writeCacheErr = None\<rparr>"

section \<open>Properties\<close>

subsection \<open>Trimming\<close>

lemma HasPrefix_iff: "HasPrefix s p \<longleftrightarrow> (\<exists>ss. s = p @ ss)"
  by (induction s p rule: HasPrefix.induct) auto

lemma trimPrefixes_cases:
  obtains (stop) "trimPrefixes ps s = s" and "\<forall>p \<in> set ps. p \<noteq> [] \<longrightarrow> \<not> HasPrefix s p"
  | (strip) p where "p \<in> set ps" and "p \<noteq> []" and "HasPrefix s p"
      and "trimPrefixes ps s = trimPrefixes ps (drop (length p) s)"
proof (cases "filter (\<lambda>p. p \<noteq> [] \<and> HasPrefix s p) ps")
  case Nil
  then have "trimPrefixes ps s = s" by (simp add: trimPrefixes.simps)
  moreover from Nil have "\<forall>p \<in> set ps. p \<noteq> [] \<longrightarrow> \<not> HasPrefix s p"
    by (auto simp: filter_empty_conv)
  ultimately show ?thesis by (rule stop)
next
  case (Cons p qs)
  then have "p \<in> set (filter (\<lambda>p. p \<noteq> [] \<and> HasPrefix s p) ps)" by simp
  then have "p \<in> set ps" and "p \<noteq> []" and "HasPrefix s p" by simp_all
  moreover from Cons have "trimPrefixes ps s = trimPrefixes ps (drop (length p) s)"
    by (simp add: trimPrefixes.simps)
  ultimately show ?thesis by (rule strip)
qed




lemma trimPrefixes_keeps:
  assumes "kw \<noteq> []"
    and "\<forall>p \<in> set ps. hd kw \<notin> set p \<or> (last p \<notin> set kw \<and> length p \<le> length kw)"
  shows "\<exists>a'. trimPrefixes ps (a @ kw @ b) = a' @ kw @ b"
proof (induction "length a" arbitrary: a rule: less_induct)
  case less
  show ?case
  proof (cases ps "a @ kw @ b" rule: trimPrefixes_cases)
    case stop
    then show ?thesis by blast
  next
    case (strip p)
    then obtain ss where s: "a @ kw @ b = p @ ss" by (auto simp: HasPrefix_iff)
    have "length p \<le> length a"
    proof (rule ccontr)
      assume "\<not> length p \<le> length a"
      then have l: "length a < length p" by simp
      from s have t: "take (length a) (p @ ss) = a" and d: "drop (length a) (p @ ss) = kw @ b"
        by (metis append_eq_conv_conj)+
      define x where "x = drop (length a) p"
      from t l have "take (length a) p = a" by simp
      then have p: "p = a @ x" unfolding x_def by (metis append_take_drop_id)
      from l have x: "x \<noteq> []" by (simp add: x_def)
      from d l have xs: "kw @ b = x @ ss" by (simp add: x_def)
      from assms(1) x xs have "hd kw = hd x" by (cases kw; cases x) auto
      with x p have h: "hd kw \<in> set p" by (cases x) auto
      from xs have "(\<exists>y. kw = x @ y) \<or> (\<exists>y. x = kw @ y)"
        unfolding append_eq_append_conv2 by metis
      then consider y where "kw = x @ y" | y where "x = kw @ y" by blast
      then show False
      proof cases
        case 1
        with x p have "last p \<in> set kw" by simp
        with h assms(2) strip(1) show False by blast
      next
        case 2
        show False
        proof (cases "y = []")
          case True
          with 2 x p have "last p \<in> set kw" by simp
          with h assms(2) strip(1) show False by blast
        next
          case False
          with 2 p have "length kw < length p" by simp
          with h assms(2) strip(1) show False by fastforce
        qed
      qed
    qed
    with s obtain a2 where a: "a = p @ a2" by (auto simp: append_eq_append_conv2)
    with strip have "length a2 < length a" by simp
    from less [OF this] obtain a' where "trimPrefixes ps (a2 @ kw @ b) = a' @ kw @ b" by blast
    with strip a show ?thesis by simp
  qed
qed

lemma spaceRunes_nonempty: "p \<in> set spaceRunes \<Longrightarrow> p \<noteq> []"
proof -
  have "[] \<notin> set spaceRunes" by (simp add: spaceRunes_def)
  then show "p \<in> set spaceRunes \<Longrightarrow> p \<noteq> []" by blast
qed











subsection \<open>Decimal numbers\<close>








lemma digits_nonneg:
  "list_all isDigit ds \<Longrightarrow> 0 \<le> acc
     \<Longrightarrow> 0 \<le> foldl (\<lambda>acc c. 10 * acc + ((of_char c :: int) - 48)) acc ds"
proof (induction ds arbitrary: acc)
  case Nil
  then show ?case by simp
next
  case (Cons d ds)
  from Cons.prems have "0 \<le> 10 * acc + ((of_char d :: int) - 48)" by (simp add: isDigit_def)
  with Cons show ?case by simp
qed

lemma digitsValue_nonneg: "digitsValue ds = Some un \<Longrightarrow> 0 \<le> un"
  using digits_nonneg [of ds 0] by (auto simp: digitsValue_def split: if_splits)

lemma ParseInt_range:
  assumes "ParseInt s = Some n"
  shows "- (2 ^ 63) \<le> n \<and> n < 2 ^ 63"
proof (cases s)
  case Nil
  with assms show ?thesis by (simp add: ParseInt_def)
next
  case (Cons c r)
  define ds where "ds = (if c = CHR ''+'' \<or> c = CHR ''-'' then r else s)"
  from assms Cons obtain un where un: "digitsValue ds = Some un"
    and n: "n = (if c = CHR ''-'' then - un else un)"
    and r: "\<not> (c \<noteq> CHR ''-'' \<and> 2 ^ 63 \<le> un)" "\<not> (c = CHR ''-'' \<and> 2 ^ 63 < un)"
    by (auto simp: ParseInt_def Let_def ds_def split: option.splits if_splits)
  from digitsValue_nonneg [OF un] n r show ?thesis by (auto split: if_splits)
qed



subsection \<open>Lines\<close>










subsection \<open>Times\<close>

lemma int64_id: "- (2 ^ 63) \<le> x \<Longrightarrow> x < 2 ^ 63 \<Longrightarrow> int64 x = x"
  by (simp add: int64_def)


lemma int64_add: "int64 (int64 a + b) = int64 (a + b)"
proof -
  have "(((a + 2 ^ 63) mod 2 ^ 64 - 2 ^ 63 + b) + 2 ^ 63) mod 2 ^ 64
        = ((a + 2 ^ 63) mod 2 ^ 64 + b) mod (2 ^ 64 :: int)" by simp
  also have "\<dots> = ((a + 2 ^ 63) + b) mod 2 ^ 64" by (simp add: mod_add_left_eq)
  finally show ?thesis by (simp add: int64_def add.assoc add.commute add.left_commute)
qed

lemma int64_diff: "int64 (int64 a - b) = int64 (a - b)"
  using int64_add [of a "- b"] by simp


lemma unixOf_timeUnix: "- (2 ^ 63) \<le> ts \<Longrightarrow> ts < 2 ^ 63 \<Longrightarrow> unixOf (timeUnix ts) = ts"
proof -
  assume r: "- (2 ^ 63) \<le> ts" "ts < 2 ^ 63"
  have "unixOf (timeUnix ts) = int64 (int64 (ts + unixToInternal) - unixToInternal)"
    by (simp add: unixOf_def timeUnix_def)
  also have "\<dots> = int64 ts" by (simp add: int64_diff)
  finally show ?thesis using r by (simp add: int64_id)
qed









subsection \<open>The lines of the ledger\<close>














subsection \<open>Writing the ledger and reading it back\<close>






subsection \<open>The ledger operations\<close>








subsection \<open>The penalty filter\<close>


subsection \<open>A frozen endpoint that the filter returns\<close>

text \<open>
  C5. The penalty filter does not return exactly the candidates without an unexpired freeze
  record. \<open>FreezeEndpoint\<close> freezes the endpoint \<open>sub1-US, NY\<close> at 1700000000 seconds and
  writes the line \<open>sub1-US, NY,1700000900\<close>; \<open>readPenaltiesFile\<close> cuts that line at its
  first comma, finds no timestamp in the rest and skips it, so that one second later
  \<open>filterPenalized\<close> returns the endpoint although its freeze expires 899 seconds later. The
  endpoint \<open>sub1-US NY\<close>, frozen in the same way, is dropped.
\<close>

theorem frozen_endpoint_with_comma_is_returned:
  "FreezeEndpoint soundIO (Tag commaEndpoint) emptyLedger = (None, commaLedger)
   \<and> recordedExpiry (onDisk commaLedger) (Tag commaEndpoint) = None
   \<and> timeUnix 1700000001 < timeUnix 1700000900
   \<and> filterPenalized (onDisk commaLedger) (timeUnix 1700000001) [commaEndpoint, plainEndpoint]
       = [commaEndpoint, plainEndpoint]
   \<and> FreezeEndpoint soundIO (Tag plainEndpoint) emptyLedger = (None, plainLedger)
   \<and> recordedExpiry (onDisk plainLedger) (Tag plainEndpoint) = Some (timeUnix 1700000900)
   \<and> filterPenalized (onDisk plainLedger) (timeUnix 1700000001) [commaEndpoint, plainEndpoint]
       = [commaEndpoint]"
proof -
  have 1: "FreezeEndpoint soundIO (Tag commaEndpoint) emptyLedger = (None, commaLedger)"
    by code_simp
  have 2: "recordedExpiry (onDisk commaLedger) (Tag commaEndpoint) = None" by code_simp
  have 3: "timeUnix 1700000001 < timeUnix 1700000900" by code_simp
  have 4: "filterPenalized (onDisk commaLedger) (timeUnix 1700000001) [commaEndpoint, plainEndpoint]
       = [commaEndpoint, plainEndpoint]" by code_simp
  have 5: "FreezeEndpoint soundIO (Tag plainEndpoint) emptyLedger = (None, plainLedger)"
    by code_simp
  have 6: "recordedExpiry (onDisk plainLedger) (Tag plainEndpoint) = Some (timeUnix 1700000900)"
    by code_simp
  have 7: "filterPenalized (onDisk plainLedger) (timeUnix 1700000001) [commaEndpoint, plainEndpoint]
       = [commaEndpoint]" by code_simp
  from 1 2 3 4 5 6 7 show ?thesis by (intro conjI)
qed

text \<open>
  A timestamp beyond 9223371974719179007 is read as an instant before the epoch, since the
  sum of \<open>time.Unix\<close> wraps: the filter returns the endpoint of such a record as well.
\<close>

lemma far_future_record_is_expired:
  "recordedExpiry (Contents ''sub1-a,9223372036854775807'') (Tag endpointA)
     = Some (timeUnix 9223372036854775807)
   \<and> timeUnix 9223372036854775807 < timeUnix 0
   \<and> filterPenalized (Contents ''sub1-a,9223372036854775807'') (timeUnix 1700000000) [endpointA]
       = [endpointA]"
proof -
  have 1: "recordedExpiry (Contents ''sub1-a,9223372036854775807'') (Tag endpointA)
     = Some (timeUnix 9223372036854775807)" by code_simp
  have 2: "timeUnix 9223372036854775807 < timeUnix 0" by code_simp
  have 3: "filterPenalized (Contents ''sub1-a,9223372036854775807'') (timeUnix 1700000000)
     [endpointA] = [endpointA]" by code_simp
  from 1 2 3 show ?thesis by (intro conjI)
qed
subsection \<open>The freeze guard of a scenario\<close>







lemma freeze_tracing: "tracingDeferred (freeze io reason tag st) = tracingDeferred st"
  by (auto simp: freeze_def logA_def split: prod.splits option.splits)


lemma fail_result: "fst (fst (fail io res reason err st)) = res"
  by (simp add: fail_def Let_def)









lemma runScenario_entered:
  assumes "ctxErrAtEntry b = None"
  shows "runScenario io b url tag sid opts bf w
         = (fst (scenarioBody io b opts (newResult sid tag opts) (newScn w)),
            deferred io tag (snd (scenarioBody io b opts (newResult sid tag opts) (newScn w))))"
  using assms by (simp add: runScenario_def Let_def split: prod.splits)


subsection \<open>The calls of FreezeEndpoint by their faults\<close>





subsection \<open>Invoking the freeze path again and again\<close>








subsection \<open>The result of a scenario does not depend on the ledger\<close>








subsection \<open>The ledger that a scenario leaves\<close>


lemma freezeCalls_filter:
  "filter isFreezeCall (trace st) = xs \<Longrightarrow> freezeCalls st = length xs"
  by (simp add: freezeCalls_def)






subsection \<open>Freezing the endpoint of a scenario\<close>






subsection \<open>The temperature step\<close>

lemma untempered_logA:
  "untempered st \<Longrightarrow> \<not> temperatureStep a \<Longrightarrow> untempered (logA a st)"
  by (simp add: untempered_def logA_def)

lemma untempered_tracing: "untempered (st\<lparr>tracingDeferred := x\<rparr>) = untempered st"
  by (simp add: untempered_def)

lemma untempered_freeze: "untempered st \<Longrightarrow> untempered (freeze io reason tag st)"
  by (auto simp: untempered_def freeze_def logA_def temperatureStep_def split: prod.splits option.splits)

lemma untempered_fail: "untempered st \<Longrightarrow> untempered (snd (fail io res reason err st))"
  by (simp add: fail_def untempered_freeze)

lemma untempered_setupPhase:
  assumes "untempered st"
  shows "case setupPhase io b res st of
           Inl r \<Rightarrow> untempered (snd r)
         | Inr st' \<Rightarrow> untempered st'"
  using assms
  by (simp add: setupPhase_def Let_def untempered_fail untempered_logA untempered_tracing
                temperatureStep_def split: option.splits)

lemma untempered_settingsPhase:
  assumes "untempered st" and "\<not> fless (Finite 0) (Temperature opts)"
  shows "case settingsPhase io b opts res st of
           Inl r \<Rightarrow> untempered (snd r)
         | Inr st' \<Rightarrow> untempered st'"
  using assms
  by (simp add: settingsPhase_def Let_def untempered_fail untempered_logA temperatureStep_def
           split: option.splits)

lemma untempered_promptPhase:
  assumes "untempered st"
  shows "case promptPhase io b opts res st of
           Inl r \<Rightarrow> untempered (snd r)
         | Inr st' \<Rightarrow> untempered st'"
  using assms
  by (simp add: promptPhase_def Let_def untempered_fail untempered_logA temperatureStep_def
           split: option.splits)

lemma untempered_downloadPhase:
  assumes "untempered st"
  shows "untempered (snd (downloadPhase io b res st))"
  using assms
  by (simp add: downloadPhase_def Let_def untempered_fail untempered_freeze untempered_logA
                temperatureStep_def
           split: option.splits DownloadOutcome.splits)

lemma untempered_scenarioBody:
  assumes "untempered st" and t: "\<not> fless (Finite 0) (Temperature opts)"
  shows "untempered (snd (scenarioBody io b opts res st))"
proof (cases "setupPhase io b res st")
  case (Inl r)
  with untempered_setupPhase [OF assms(1), of io b res] show ?thesis
    by (simp add: scenarioBody_def)
next
  case (Inr st1)
  with untempered_setupPhase [OF assms(1), of io b res] have i1: "untempered st1" by simp
  show ?thesis
  proof (cases "settingsPhase io b opts res st1")
    case (Inl r)
    with untempered_settingsPhase [OF i1 t, of io b res] Inr show ?thesis
      by (simp add: scenarioBody_def)
  next
    case st2: (Inr st2)
    with untempered_settingsPhase [OF i1 t, of io b res] have i2: "untempered st2" by simp
    show ?thesis
    proof (cases "promptPhase io b opts res st2")
      case (Inl r)
      with untempered_promptPhase [OF i2, of io b opts res] Inr st2 show ?thesis
        by (simp add: scenarioBody_def)
    next
      case st3: (Inr st3)
      with untempered_promptPhase [OF i2, of io b opts res] have i3: "untempered st3" by simp
      from untempered_downloadPhase [OF i3, of io b res] Inr st2 st3 show ?thesis
        by (simp add: scenarioBody_def)
    qed
  qed
qed

lemma untempered_runScenario:
  assumes "\<not> fless (Finite 0) (Temperature opts)"
  shows "untempered (snd (runScenario io b url tag sid opts bf w))"
proof (cases "ctxErrAtEntry b")
  case (Some e)
  then show ?thesis by (simp add: runScenario_def untempered_def newScn_def)
next
  case None
  let ?st = "snd (scenarioBody io b opts (newResult sid tag opts) (newScn w))"
  have "untempered ?st"
    by (rule untempered_scenarioBody [OF _ assms]) (simp add: untempered_def newScn_def)
  then have "untempered (deferred io tag ?st)"
    by (simp add: deferred_def untempered_freeze untempered_logA temperatureStep_def)
  with runScenario_entered [OF None] show ?thesis by simp
qed

lemma skipped_slider_irrelevant:
  assumes "\<not> fless (Finite 0) (Temperature opts)"
  shows "runScenario io (b\<lparr>temperatureSlider := sl\<rparr>) url tag sid opts bf w
           = runScenario io b url tag sid opts bf w"
proof -
  have 1: "setupPhase io (b\<lparr>temperatureSlider := sl\<rparr>) res st = setupPhase io b res st"
    for res st by (simp add: setupPhase_def Let_def split: option.splits)
  have 2: "settingsPhase io (b\<lparr>temperatureSlider := sl\<rparr>) opts res st
             = settingsPhase io b opts res st" for res st
    using assms by (simp add: settingsPhase_def Let_def split: option.splits)
  have 3: "promptPhase io (b\<lparr>temperatureSlider := sl\<rparr>) opts res st
             = promptPhase io b opts res st" for res st
    by (simp add: promptPhase_def Let_def split: option.splits)
  have 4: "downloadPhase io (b\<lparr>temperatureSlider := sl\<rparr>) res st = downloadPhase io b res st"
    for res st by (simp add: downloadPhase_def Let_def)
  have "scenarioBody io (b\<lparr>temperatureSlider := sl\<rparr>) opts res st = scenarioBody io b opts res st"
    for res st by (simp add: scenarioBody_def 1 2 3 4 split: sum.splits)
  then show ?thesis by (simp add: runScenario_def Let_def split: option.splits)
qed

lemma handleJSONRun_temperature:
  assumes "handleJSONRun dir req statErr prepared = Inr jopts"
  shows "Temperature jopts = (if fless (Finite 0) (reqTemperature req) then reqTemperature req else Finite 1)"
  using assms
  by (auto simp: handleJSONRun_def Let_def DefaultRunOptions_def split: if_splits option.splits sum.splits)


lemma fless_fleq: "fless a b \<Longrightarrow> fleq a b"
  by (cases a; cases b) auto


lemma handleMultipartRun_temperature:
  assumes "handleMultipartRun dir parseFloat perr form prepared = Inr mopts"
  shows "Temperature mopts =
           (if TrimSpace (formTemperature form) = [] then Finite 1
            else (case parseFloat (TrimSpace (formTemperature form)) of
                    None \<Rightarrow> Finite 1
                  | Some t \<Rightarrow> if fless (Finite 0) t \<and> fleq t (Finite 2) then t else Finite 1))"
proof -
  define temperature where "temperature =
     (if TrimSpace (formTemperature form) \<noteq> []
      then (case parseFloat (TrimSpace (formTemperature form)) of
              Some t \<Rightarrow> if fleq (Finite 0) t \<and> fleq t (Finite 2) then t else Finite 0
            | None \<Rightarrow> Finite 0)
      else Finite 0)"
  from assms have "Temperature mopts = (if fless (Finite 0) temperature then temperature else Finite 1)"
    unfolding handleMultipartRun_def Let_def temperature_def [symmetric]
    by (auto simp: DefaultRunOptions_def split: if_splits option.splits sum.splits upload.splits)
  also have "\<dots> = (if TrimSpace (formTemperature form) = [] then Finite 1
            else (case parseFloat (TrimSpace (formTemperature form)) of
                    None \<Rightarrow> Finite 1
                  | Some t \<Rightarrow> if fless (Finite 0) t \<and> fleq t (Finite 2) then t else Finite 1))"
    by (auto simp: temperature_def fless_fleq split: option.splits)
  finally show ?thesis .
qed

text \<open>
  C6, as amended. A scenario whose options hold a temperature that is not above 0 skips the
  temperature step: its result and its effects do not depend on the temperature control of
  the page, and its trace holds no temperature step, so the step cannot make it fail. The
  JSON handler puts a submitted temperature into the options when it is above 0 and leaves
  the default 1.0 otherwise; the multipart handler puts it there when it parses and lies
  above 0 and at most at 2, and leaves the default 1.0 otherwise.
\<close>

theorem temperature_zero_skips_step:
  "(\<not> fless (Finite 0) (Temperature opts) \<longrightarrow>
       runScenario io (b\<lparr>temperatureSlider := sl\<rparr>) url tag sid opts bf w
         = runScenario io b url tag sid opts bf w
     \<and> untempered (snd (runScenario io b url tag sid opts bf w)))
   \<and> (handleJSONRun dir req statErr prepared = Inr jopts \<longrightarrow>
        Temperature jopts
          = (if fless (Finite 0) (reqTemperature req) then reqTemperature req else Finite 1))
   \<and> (handleMultipartRun dir' parseFloat perr form prepared' = Inr mopts \<longrightarrow>
        Temperature mopts
          = (if TrimSpace (formTemperature form) = [] then Finite 1
             else (case parseFloat (TrimSpace (formTemperature form)) of
                     None \<Rightarrow> Finite 1
                   | Some t \<Rightarrow> if fless (Finite 0) t \<and> fleq t (Finite 2) then t else Finite 1)))"
proof (intro conjI impI)
  assume h: "\<not> fless (Finite 0) (Temperature opts)"
  show "runScenario io (b\<lparr>temperatureSlider := sl\<rparr>) url tag sid opts bf w
          = runScenario io b url tag sid opts bf w"
    by (rule skipped_slider_irrelevant [OF h])
  show "untempered (snd (runScenario io b url tag sid opts bf w))"
    by (rule untempered_runScenario [OF h])
next
  assume "handleJSONRun dir req statErr prepared = Inr jopts"
  then show "Temperature jopts
          = (if fless (Finite 0) (reqTemperature req) then reqTemperature req else Finite 1)"
    by (rule handleJSONRun_temperature)
next
  assume "handleMultipartRun dir' parseFloat perr form prepared' = Inr mopts"
  then show "Temperature mopts
          = (if TrimSpace (formTemperature form) = [] then Finite 1
             else (case parseFloat (TrimSpace (formTemperature form)) of
                     None \<Rightarrow> Finite 1
                   | Some t \<Rightarrow> if fless (Finite 0) t \<and> fleq t (Finite 2) then t else Finite 1))"
    by (rule handleMultipartRun_temperature)
qed

theorem temperature_zero_skips_step_witness:
  "\<not> fless (Finite 0) (Temperature zeroTemperatureOptions)
   \<and> snd (fst (runScenario soundIO (okBrowser\<lparr>temperatureSlider := hiddenSlider\<rparr>) [] [] 1
                 zeroTemperatureOptions ''text-only-1700000000'' emptyLedger)) = None
   \<and> untempered (snd (runScenario soundIO okBrowser [] [] 1
                 zeroTemperatureOptions ''text-only-1700000000'' emptyLedger))
   \<and> handleJSONRun [] zeroTemperatureRequest None (Inr []) = Inr catOptions
   \<and> Temperature catOptions = Finite 1
   \<and> handleMultipartRun [] parseOnePointFive None warmForm (Inr [])
        = Inr (catOptions\<lparr>Temperature := Finite (3 / 2)\<rparr>)
   \<and> Temperature (catOptions\<lparr>Temperature := Finite (3 / 2)\<rparr>) = Finite (3 / 2)"
proof -
  note T = temperature_zero_skips_step
             [where opts = zeroTemperatureOptions and io = soundIO and b = okBrowser
                and sl = hiddenSlider and url = "[]" and tag = "[]" and sid = 1
                and bf = "''text-only-1700000000''" and w = emptyLedger
                and dir = "[]" and req = zeroTemperatureRequest and statErr = None
                and prepared = "Inr []" and jopts = catOptions
                and dir' = "[]" and parseFloat = parseOnePointFive and perr = None
                and form = warmForm and prepared' = "Inr []"
                and mopts = "catOptions\<lparr>Temperature := Finite (3 / 2)\<rparr>"]
  have h: "\<not> fless (Finite 0) (Temperature zeroTemperatureOptions)"
    by (simp add: zeroTemperatureOptions_def)
  have r: "snd (fst (runScenario soundIO okBrowser [] [] 1
                 zeroTemperatureOptions ''text-only-1700000000'' emptyLedger)) = None"
    by code_simp
  have j: "handleJSONRun [] zeroTemperatureRequest None (Inr []) = Inr catOptions"
    by code_simp
  have m: "handleMultipartRun [] parseOnePointFive None warmForm (Inr [])
             = Inr (catOptions\<lparr>Temperature := Finite (3 / 2)\<rparr>)"
    by code_simp
  from T h have e: "runScenario soundIO (okBrowser\<lparr>temperatureSlider := hiddenSlider\<rparr>) [] [] 1
                 zeroTemperatureOptions ''text-only-1700000000'' emptyLedger
               = runScenario soundIO okBrowser [] [] 1
                 zeroTemperatureOptions ''text-only-1700000000'' emptyLedger"
    and u: "untempered (snd (runScenario soundIO okBrowser [] [] 1
                 zeroTemperatureOptions ''text-only-1700000000'' emptyLedger))"
    by blast+
  from T j have "Temperature catOptions
          = (if fless (Finite 0) (reqTemperature zeroTemperatureRequest)
             then reqTemperature zeroTemperatureRequest else Finite 1)"
    by blast
  then have tj: "Temperature catOptions = Finite 1"
    by (simp add: zeroTemperatureRequest_def)
  have tm: "Temperature (catOptions\<lparr>Temperature := Finite (3 / 2)\<rparr>) = Finite (3 / 2)"
    by simp
  from h r [folded e] u j tj m tm show ?thesis by (intro conjI)
qed

text \<open>
  The claim C6 as stated fails: a JSON submission with the temperature 0 yields options with
  the temperature 1.0, and the scenario run with them performs the temperature step; on a
  page where the temperature control is not visible it ends with the error of that step.
\<close>

theorem submitted_zero_temperature_runs_step:
  "reqTemperature zeroTemperatureRequest = Finite 0
   \<and> handleJSONRun [] zeroTemperatureRequest None (Inr []) = Inr catOptions
   \<and> Temperature catOptions = Finite 1
   \<and> Step (SetTemperatureTo (Finite 1)) \<in> set (trace (snd hiddenSliderRun))
   \<and> snd (fst hiddenSliderRun) = Some (StepNotCompleted (SetTemperatureTo (Finite 1)))"
proof -
  have a: "reqTemperature zeroTemperatureRequest = Finite 0"
    by (simp add: zeroTemperatureRequest_def)
  have b: "handleJSONRun [] zeroTemperatureRequest None (Inr []) = Inr catOptions"
    by code_simp
  have c: "Temperature catOptions = Finite 1"
    by (simp add: catOptions_def DefaultRunOptions_def)
  have d: "Step (SetTemperatureTo (Finite 1)) \<in> set (trace (snd hiddenSliderRun))"
    by code_simp
  have e: "snd (fst hiddenSliderRun) = Some (StepNotCompleted (SetTemperatureTo (Finite 1)))"
    by code_simp
  from a b c d e show ?thesis by (intro conjI)
qed

subsection \<open>The orchestrator\<close>






lemma firstError_Some: "firstError (Some x) errs = Some x"
  by (induction errs) auto

lemma firstError_None: "firstError None errs = (case errs of [] \<Rightarrow> None | e # es \<Rightarrow> Some e)"
  by (cases errs) (auto simp: firstError_Some)

lemma anySuccess_list_ex:
  "anySuccess rs = list_ex (\<lambda>r. Outcome r = DownloadOutcomeDownloaded) rs"
  by (induction rs) auto

lemma drained_map:
  "\<forall>i \<in> set order. i < length xs \<Longrightarrow> drained xs order = map ((!) xs) order"
  by (induction order) (auto simp: drained_def)

lemma drained_permutation:
  assumes "distinct order" and "set order = {..< length xs}"
  shows "mset (drained xs order) = mset xs"
proof -
  from assms(2) have "\<forall>i \<in> set order. i < length xs" by simp
  then have 1: "drained xs order = map ((!) xs) order" by (rule drained_map)
  have "set order = set [0 ..< length xs]"
    using assms(2) by (simp add: atLeast0LessThan)
  then have 2: "mset order = mset [0 ..< length xs]"
    by (rule iffD1 [OF set_eq_iff_mset_eq_distinct [OF assms(1) distinct_upt]])
  have "mset (drained xs order) = image_mset ((!) xs) (mset order)"
    unfolding 1 by (rule mset_map)
  also have "\<dots> = image_mset ((!) xs) (mset [0 ..< length xs])"
    unfolding 2 ..
  also have "\<dots> = mset (map ((!) xs) [0 ..< length xs])"
    by (rule mset_map [symmetric])
  also have "\<dots> = mset xs"
    unfolding map_nth ..
  finally show ?thesis .
qed

lemma justErrors_Cons:
  "justErrors (e # es) = (case e of Some x \<Rightarrow> x # justErrors es | None \<Rightarrow> justErrors es)"
  by (simp add: justErrors_def split: option.splits)

lemma snd_workerSends_None:
  "(snd (workerSends f wk) = None) = (snd (f wk) = None)"
  by (auto simp: workerSends_def split: prod.splits option.splits)

lemma RunWithOptions_started:
  assumes "started env opts"
  shows "RunWithOptions env opts =
           collect (drained (map fst (map (workerSends (returned env))
                                       (launchWorkers (withDefaults opts) (proxyEndpoints env))))
                            (resultOrder env))
                   (justErrors (drained (map snd (map (workerSends (returned env))
                                       (launchWorkers (withDefaults opts) (proxyEndpoints env))))
                            (errorOrder env)))"
  using assms by (simp add: started_def RunWithOptions_def Let_def)

text \<open>
  C1, as amended. A batch that has passed its set-up returns the results of all its workers,
  each once, in the order in which the result channel was drained; the error it returns is
  nil when a result has the outcome \<open>downloaded\<close>, and otherwise the first error in the order
  in which the error channel was drained, which is nil when no worker failed.
\<close>

theorem RunWithOptions_outcome:
  assumes st: "started env opts" and sch: "schedules env opts"
  shows "mset (fst (RunWithOptions env opts))
           = mset (map (\<lambda>wk. fst (workerSends (returned env) wk))
                       (launchWorkers (withDefaults opts) (proxyEndpoints env)))
       \<and> (list_ex (\<lambda>r. Outcome r = DownloadOutcomeDownloaded) (fst (RunWithOptions env opts))
            \<longrightarrow> snd (RunWithOptions env opts) = None)
       \<and> (\<not> list_ex (\<lambda>r. Outcome r = DownloadOutcomeDownloaded) (fst (RunWithOptions env opts))
            \<longrightarrow> snd (RunWithOptions env opts)
                  = (case errorOrder env of
                       [] \<Rightarrow> None
                     | i # rest \<Rightarrow> snd (workerSends (returned env)
                                       (launchWorkers (withDefaults opts) (proxyEndpoints env) ! i))))"
proof -
  let ?ws = "launchWorkers (withDefaults opts) (proxyEndpoints env)"
  let ?sent = "map (workerSends (returned env)) ?ws"
  let ?results = "drained (map fst ?sent) (resultOrder env)"
  let ?errs = "justErrors (drained (map snd ?sent) (errorOrder env))"
  have R: "RunWithOptions env opts = collect ?results ?errs"
    by (rule RunWithOptions_started [OF st])
  have f: "fst (RunWithOptions env opts) = ?results"
    by (simp add: R collect_def)
  from sch have d: "distinct (resultOrder env)"
    and s0: "set (resultOrder env) = set [0 ..< length ?ws]"
    unfolding schedules_def Let_def by blast+
  from s0 have s: "set (resultOrder env) = {..< length (map fst ?sent)}"
    by (simp add: atLeast0LessThan)
  have "map fst ?sent = map (\<lambda>wk. fst (workerSends (returned env) wk)) ?ws"
    by simp
  with drained_permutation [OF d s]
  have a: "mset ?results = mset (map (\<lambda>wk. fst (workerSends (returned env) wk)) ?ws)"
    by (simp only:)
  have b: "snd (RunWithOptions env opts) = None"
    if "list_ex (\<lambda>r. Outcome r = DownloadOutcomeDownloaded) ?results"
    using that by (simp add: R collect_def anySuccess_list_ex)
  have c: "snd (RunWithOptions env opts)
             = (case errorOrder env of [] \<Rightarrow> None
                | i # rest \<Rightarrow> snd (workerSends (returned env) (?ws ! i)))"
    if n: "\<not> list_ex (\<lambda>r. Outcome r = DownloadOutcomeDownloaded) ?results"
  proof (cases "errorOrder env")
    case Nil
    with n show ?thesis
      by (simp add: R collect_def anySuccess_list_ex drained_def justErrors_def)
  next
    case (Cons i rest)
    from sch have E: "set (errorOrder env)
                        = set (filter (\<lambda>i. snd (returned env (?ws ! i)) \<noteq> None)
                                      [0 ..< length ?ws])"
      unfolding schedules_def Let_def by blast
    from Cons have "i \<in> set (errorOrder env)" by simp
    then have "i \<in> set (filter (\<lambda>i. snd (returned env (?ws ! i)) \<noteq> None)
                                 [0 ..< length ?ws])"
      unfolding E .
    then have "i < length ?ws" and "snd (returned env (?ws ! i)) \<noteq> None"
      by simp_all
    then obtain e where e: "snd (workerSends (returned env) (?ws ! i)) = Some e"
      using snd_workerSends_None [of "returned env" "?ws ! i"] by auto
    with \<open>i < length ?ws\<close> Cons have "?errs = e # justErrors (drained (map snd ?sent) rest)"
      by (simp add: drained_def justErrors_def)
    with n e Cons show ?thesis
      by (simp add: R collect_def anySuccess_list_ex firstError_Some)
  qed
  from a b c show ?thesis unfolding f by (intro conjI impI)
qed

theorem RunWithOptions_outcome_witness:
  "started mixedBatch threeCats \<and> schedules mixedBatch threeCats
   \<and> list_ex (\<lambda>r. Outcome r = DownloadOutcomeDownloaded) (fst (RunWithOptions mixedBatch threeCats))
   \<and> snd (RunWithOptions mixedBatch threeCats) = None
   \<and> size (mset (fst (RunWithOptions mixedBatch threeCats))) = 2
   \<and> started failedBatch threeCats \<and> schedules failedBatch threeCats
   \<and> \<not> list_ex (\<lambda>r. Outcome r = DownloadOutcomeDownloaded) (fst (RunWithOptions failedBatch threeCats))
   \<and> snd (RunWithOptions failedBatch threeCats) = Some (ScenarioFailed 2 (Msg ''new page failed''))"
proof -
  have s1: "started mixedBatch threeCats" and c1: "schedules mixedBatch threeCats"
    and s2: "started failedBatch threeCats" and c2: "schedules failedBatch threeCats"
    by code_simp+
  have d1: "list_ex (\<lambda>r. Outcome r = DownloadOutcomeDownloaded)
              (fst (RunWithOptions mixedBatch threeCats))"
    by code_simp
  have d2: "\<not> list_ex (\<lambda>r. Outcome r = DownloadOutcomeDownloaded)
              (fst (RunWithOptions failedBatch threeCats))"
    by code_simp
  have l: "length (launchWorkers (withDefaults threeCats) (proxyEndpoints mixedBatch)) = 2"
    by code_simp
  have v: "(case errorOrder failedBatch of
              [] \<Rightarrow> None
            | i # rest \<Rightarrow> snd (workerSends (returned failedBatch)
                  (launchWorkers (withDefaults threeCats) (proxyEndpoints failedBatch) ! i)))
             = Some (ScenarioFailed 2 (Msg ''new page failed''))"
    by code_simp
  note T1 = RunWithOptions_outcome [OF s1 c1]
  note T2 = RunWithOptions_outcome [OF s2 c2]
  from T1 d1 have a: "snd (RunWithOptions mixedBatch threeCats) = None" by blast
  from T1 have "size (mset (fst (RunWithOptions mixedBatch threeCats)))
                  = size (mset (map (\<lambda>wk. fst (workerSends (returned mixedBatch) wk))
                       (launchWorkers (withDefaults threeCats) (proxyEndpoints mixedBatch))))"
    by (simp only:)
  then have b: "size (mset (fst (RunWithOptions mixedBatch threeCats))) = 2"
    by (simp add: l)
  from T2 d2 have "snd (RunWithOptions failedBatch threeCats)
                     = (case errorOrder failedBatch of
              [] \<Rightarrow> None
            | i # rest \<Rightarrow> snd (workerSends (returned failedBatch)
                  (launchWorkers (withDefaults threeCats) (proxyEndpoints failedBatch) ! i)))"
    by blast
  then have c: "snd (RunWithOptions failedBatch threeCats)
                  = Some (ScenarioFailed 2 (Msg ''new page failed''))"
    by (simp only: v)
  from s1 c1 d1 a b s2 c2 d2 c show ?thesis by (intro conjI)
qed

text \<open>
  The claim C1 as stated fails: in the batch \<open>idleBatch\<close> the only worker ends with the outcome
  \<open>none\<close> and no error (its download poll timed out), so no worker has reached \<open>downloaded\<close>,
  and the batch returns a nil error.
\<close>

theorem batch_without_download_or_error_succeeds:
  "started idleBatch catOptions \<and> schedules idleBatch catOptions
   \<and> map Outcome (fst (RunWithOptions idleBatch catOptions)) = [DownloadOutcomeNone]
   \<and> map Error (fst (RunWithOptions idleBatch catOptions)) = [None]
   \<and> snd (RunWithOptions idleBatch catOptions) = None"
proof -
  have a: "started idleBatch catOptions" by code_simp
  have b: "schedules idleBatch catOptions" by code_simp
  have c: "map Outcome (fst (RunWithOptions idleBatch catOptions)) = [DownloadOutcomeNone]"
    by code_simp
  have d: "map Error (fst (RunWithOptions idleBatch catOptions)) = [None]"
    by code_simp
  have e: "snd (RunWithOptions idleBatch catOptions) = None" by code_simp
  from a b c d e show ?thesis by (intro conjI)
qed

subsection \<open>The lifetime of the proxy process\<close>

text \<open>
  C3. The subprocess is started on \<open>context.Background()\<close>, and \<open>pickProxyEndpoints\<close> then
  starts a goroutine that calls \<open>stop\<close> when the context of the run request is done: with
  usable endpoints the process it leaves behind is killed by the cancellation of the
  request, against the claim.
\<close>

theorem request_cancellation_kills_singbox:
  "pickProxyEndpoints quietSingbox cachedNodes
     = ([endpointA, endpointB], Some \<lparr>alive = True, killedBy = [Background, Request]\<rparr>)
   \<and> map_option (\<lambda>p. alive (cancelScope Request p)) (snd (pickProxyEndpoints quietSingbox cachedNodes))
     = Some False"
proof -
  have a: "pickProxyEndpoints quietSingbox cachedNodes
     = ([endpointA, endpointB], Some \<lparr>alive = True, killedBy = [Background, Request]\<rparr>)"
    by code_simp
  have b: "map_option (\<lambda>p. alive (cancelScope Request p))
             (snd (pickProxyEndpoints quietSingbox cachedNodes)) = Some False"
    by code_simp
  from a b show ?thesis by (intro conjI)
qed

subsection \<open>Containment of a keyword\<close>

lemma Contains_iff: "Contains s sub \<longleftrightarrow> (\<exists>ps ss. s = ps @ sub @ ss)"
proof (induction s)
  case Nil
  then show ?case by auto
next
  case (Cons c cs)
  show ?case
  proof
    assume "Contains (c # cs) sub"
    then consider "HasPrefix (c # cs) sub" | "Contains cs sub" by auto
    then show "\<exists>ps ss. c # cs = ps @ sub @ ss"
    proof cases
      case 1
      then obtain ss where "c # cs = sub @ ss" by (auto simp: HasPrefix_iff)
      then have "c # cs = [] @ sub @ ss" by simp
      then show ?thesis by blast
    next
      case 2
      with Cons obtain ps ss where "cs = ps @ sub @ ss" by auto
      then have "c # cs = (c # ps) @ sub @ ss" by simp
      then show ?thesis by blast
    qed
  next
    assume "\<exists>ps ss. c # cs = ps @ sub @ ss"
    then obtain ps ss where e: "c # cs = ps @ sub @ ss" by auto
    show "Contains (c # cs) sub"
    proof (cases ps)
      case Nil
      with e have "HasPrefix (c # cs) sub" by (auto simp: HasPrefix_iff)
      then show ?thesis by simp
    next
      case (Cons p ps')
      with e have "cs = ps' @ sub @ ss" by simp
      with Cons.IH have "Contains cs sub" by blast
      then show ?thesis by simp
    qed
  qed
qed

text \<open>
  Trimming keeps a keyword: no white-space rune holds the first byte of a keyword of the
  blacklist, and no keyword holds the first byte of a white-space rune.
\<close>

lemma Contains_TrimSpace:
  assumes c: "Contains s kw" and n: "kw \<noteq> []"
    and l: "\<forall>p \<in> set spaceRunes. hd kw \<notin> set p"
    and r: "\<forall>p \<in> set spaceRunes. hd p \<notin> set kw \<and> length p \<le> length kw"
  shows "Contains (TrimSpace s) kw"
proof -
  from c obtain ps ss where s: "s = ps @ kw @ ss" by (auto simp: Contains_iff)
  from l have "\<forall>p \<in> set spaceRunes. hd kw \<notin> set p \<or> (last p \<notin> set kw \<and> length p \<le> length kw)"
    by blast
  from trimPrefixes_keeps [OF n this, of ps ss] obtain ps' where
    1: "trimPrefixes spaceRunes (ps @ kw @ ss) = ps' @ kw @ ss" by blast
  from n have n': "rev kw \<noteq> []" by simp
  have "\<forall>p \<in> set (map rev spaceRunes).
          hd (rev kw) \<notin> set p \<or> (last p \<notin> set (rev kw) \<and> length p \<le> length (rev kw))"
  proof
    fix p assume "p \<in> set (map rev spaceRunes)"
    then obtain q where q: "q \<in> set spaceRunes" and p: "p = rev q" by auto
    from spaceRunes_nonempty [OF q] have "last (rev q) = hd q" by (simp add: last_rev)
    with r q p
    show "hd (rev kw) \<notin> set p \<or> (last p \<notin> set (rev kw) \<and> length p \<le> length (rev kw))"
      by simp
  qed
  from trimPrefixes_keeps [OF n' this, of "rev ss" "rev ps'"] obtain ss' where
    2: "trimPrefixes (map rev spaceRunes) (rev ss @ rev kw @ rev ps') = ss' @ rev kw @ rev ps'"
    by blast
  have "TrimSpace s = rev (trimPrefixes (map rev spaceRunes) (rev (ps' @ kw @ ss)))"
    by (simp add: TrimSpace_def s 1)
  also have "\<dots> = rev (ss' @ rev kw @ rev ps')"
    using 2 by simp
  also have "\<dots> = ps' @ kw @ rev ss'" by simp
  finally show ?thesis by (auto simp: Contains_iff)
qed

lemma blacklist_bytes:
  "list_all (\<lambda>kw. kw \<noteq> [] \<and> list_all (\<lambda>p. hd kw \<notin> set p \<and> hd p \<notin> set kw
                                            \<and> length p \<le> length kw) spaceRunes) blacklist"
  by code_simp

lemma blacklist_words:
  "kw \<in> set blacklist \<Longrightarrow>
     kw \<noteq> [] \<and> (\<forall>p \<in> set spaceRunes. hd kw \<notin> set p)
     \<and> (\<forall>p \<in> set spaceRunes. hd p \<notin> set kw \<and> length p \<le> length kw)"
  using blacklist_bytes unfolding list_all_iff by blast

lemma shouldExcludeTag_TrimSpace:
  "shouldExcludeTag s \<Longrightarrow> shouldExcludeTag (TrimSpace s)"
  unfolding shouldExcludeTag_def list_ex_iff
  using Contains_TrimSpace blacklist_words by blast

lemma Contains_Nil: "Contains [] kw \<longleftrightarrow> kw = []"
  by simp

lemma origTag_clean:
  assumes "\<not> shouldExcludeTag (origTagOf i ob)"
  shows "\<not> shouldExcludeTag (tagOf ob)"
proof
  assume x: "shouldExcludeTag (tagOf ob)"
  then have t: "shouldExcludeTag (TrimSpace (tagOf ob))" by (rule shouldExcludeTag_TrimSpace)
  show False
  proof (cases "TrimSpace (tagOf ob) = []")
    case True
    with t obtain kw where "kw \<in> set blacklist" and "Contains [] kw"
      by (auto simp: shouldExcludeTag_def list_ex_iff)
    with blacklist_words show False by auto
  next
    case False
    with assms t show False by (simp add: origTagOf_def Let_def)
  qed
qed


subsection \<open>Fetching and merging subscriptions\<close>

lemma map_of_assign_other: "k' \<noteq> k \<Longrightarrow> map_of (assign k v m) k' = map_of m k'"
  by (induction m) auto

lemma typeOf_retagged: "typeOf (assign ''tag'' v ob) = typeOf ob"
  by (simp add: typeOf_def map_of_assign_other)

lemma realItems_real:
  "m \<in> set (realItems arr) \<Longrightarrow> isRealOutboundType (typeOf m) \<and> JObject m \<in> set arr"
  by (induction arr) (auto split: json.splits if_splits)

lemma fetchSubscription_real:
  assumes "fetchSubscription resp = Inr items" and "i < length items"
  shows "isRealOutboundType (typeOf (items ! i))"
proof -
  from assms(1) obtain cfg arr where "items = realItems arr"
    by (auto simp: fetchSubscription_def split: response.splits option.splits json.splits)
  with assms(2) realItems_real [of "items ! i" arr] show ?thesis by simp
qed

lemma normalizeFrom_kept:
  "ob \<in> set (fst (normalizeFrom i items prefix seen)) \<Longrightarrow>
     \<exists>k < length items. \<exists>t. ob = assign ''tag'' (JString t) (items ! k)
        \<and> \<not> shouldExcludeTag (origTagOf (i + k) (items ! k))"
proof (induction items arbitrary: i seen)
  case Nil
  then show ?case by simp
next
  case (Cons it items)
  show ?case
  proof (cases "shouldExcludeTag (origTagOf i it)")
    case True
    with Cons.prems have "ob \<in> set (fst (normalizeFrom (Suc i) items prefix seen))" by simp
    from Cons.IH [OF this] obtain k t where "k < length items"
      and "ob = assign ''tag'' (JString t) (items ! k)"
      and "\<not> shouldExcludeTag (origTagOf (Suc i + k) (items ! k))" by blast
    then have "Suc k < length (it # items) \<and> ob = assign ''tag'' (JString t) ((it # items) ! Suc k)
        \<and> \<not> shouldExcludeTag (origTagOf (i + Suc k) ((it # items) ! Suc k))" by simp
    then show ?thesis by blast
  next
    case False
    obtain tag seen' where r: "retag (prefix @ origTagOf i it) seen = (tag, seen')"
      by (cases "retag (prefix @ origTagOf i it) seen") auto
    obtain out seen'' where n: "normalizeFrom (Suc i) items prefix seen' = (out, seen'')"
      by (cases "normalizeFrom (Suc i) items prefix seen'") auto
    from Cons.prems False r n
    consider "ob = assign ''tag'' (JString tag) it" | "ob \<in> set out" by auto
    then show ?thesis
    proof cases
      case 1
      with False have "0 < length (it # items) \<and> ob = assign ''tag'' (JString tag) ((it # items) ! 0)
        \<and> \<not> shouldExcludeTag (origTagOf (i + 0) ((it # items) ! 0))" by simp
      then show ?thesis by blast
    next
      case 2
      with n have "ob \<in> set (fst (normalizeFrom (Suc i) items prefix seen'))" by simp
      from Cons.IH [OF this] obtain k t where "k < length items"
        and "ob = assign ''tag'' (JString t) (items ! k)"
        and "\<not> shouldExcludeTag (origTagOf (Suc i + k) (items ! k))" by blast
      then have "Suc k < length (it # items) \<and> ob = assign ''tag'' (JString t) ((it # items) ! Suc k)
        \<and> \<not> shouldExcludeTag (origTagOf (i + Suc k) ((it # items) ! Suc k))" by simp
      then show ?thesis by blast
    qed
  qed
qed

lemma normalizeOutbounds_comesFrom:
  assumes "fetchSubscription resp = Inr items"
    and "ob \<in> set (fst (normalizeOutbounds items prefix seen))"
  shows "comesFrom items ob"
proof -
  from normalizeFrom_kept [of ob 0 items prefix seen] assms(2)
  obtain k t where k: "k < length items" and o: "ob = assign ''tag'' (JString t) (items ! k)"
    and x: "\<not> shouldExcludeTag (origTagOf k (items ! k))"
    by (auto simp: normalizeOutbounds_def)
  from x have "\<not> shouldExcludeTag (tagOf (items ! k))" by (rule origTag_clean)
  with k o x fetchSubscription_real [OF assms(1) k] show ?thesis
    unfolding comesFrom_def by blast
qed


lemma fetchAll_ok:
  "\<forall>j < length us. \<not> isl (fetchSubscription (responses env (idx + j) (us ! j))) \<Longrightarrow>
     \<exists>m. fetchAll env idx us seen merged fetched = (Inr m, fetched @ us)"
proof (induction us arbitrary: idx seen merged fetched)
  case Nil
  then show ?case by simp
next
  case (Cons u us)
  from Cons.prems have "\<not> isl (fetchSubscription (responses env (idx + 0) ((u # us) ! 0)))"
    by blast
  then obtain items where f: "fetchSubscription (responses env idx u) = Inr items"
    by (cases "fetchSubscription (responses env idx u)") auto
  obtain out seen' where n: "normalizeOutbounds items (''sub'' @ fmtInt (int idx + 1) @ ''-'') seen
                               = (out, seen')"
    by (cases "normalizeOutbounds items (''sub'' @ fmtInt (int idx + 1) @ ''-'') seen") auto
  have "\<forall>j < length us. \<not> isl (fetchSubscription (responses env (Suc idx + j) (us ! j)))"
  proof (intro allI impI)
    fix j assume "j < length us"
    then have "Suc j < length (u # us)" by simp
    with Cons.prems have "\<not> isl (fetchSubscription (responses env (idx + Suc j) ((u # us) ! Suc j)))"
      by blast
    then show "\<not> isl (fetchSubscription (responses env (Suc idx + j) (us ! j)))" by simp
  qed
  from Cons.IH [OF this, of seen' "merged @ out" "fetched @ [u]"] f n show ?case by simp
qed

lemma fetchAll_fail:
  "j < length us \<Longrightarrow> isl (fetchSubscription (responses env (idx + j) (us ! j))) \<Longrightarrow>
     \<exists>k e. k \<le> j \<and> fetchSubscription (responses env (idx + k) (us ! k)) = Inl e
          \<and> fetchAll env idx us seen merged fetched
              = (Inl (Errorf (''fetch '' @ us ! k) e), fetched @ take (Suc k) us)"
proof (induction us arbitrary: idx seen merged fetched j)
  case Nil
  then show ?case by simp
next
  case (Cons u us)
  show ?case
  proof (cases "fetchSubscription (responses env idx u)")
    case (Inl e)
    then have "0 \<le> j \<and> fetchSubscription (responses env (idx + 0) ((u # us) ! 0)) = Inl e
          \<and> fetchAll env idx (u # us) seen merged fetched
              = (Inl (Errorf (''fetch '' @ (u # us) ! 0) e), fetched @ take (Suc 0) (u # us))"
      by simp
    then show ?thesis by blast
  next
    case (Inr items)
    obtain out seen' where n: "normalizeOutbounds items (''sub'' @ fmtInt (int idx + 1) @ ''-'') seen
                                 = (out, seen')"
      by (cases "normalizeOutbounds items (''sub'' @ fmtInt (int idx + 1) @ ''-'') seen") auto
    from Inr Cons.prems obtain j' where j': "j = Suc j'" by (cases j) auto
    with Cons.prems have "j' < length us"
      and "isl (fetchSubscription (responses env (Suc idx + j') (us ! j')))" by simp_all
    from Cons.IH [OF this, of seen' "merged @ out" "fetched @ [u]"]
    obtain k e where "k \<le> j'"
      and "fetchSubscription (responses env (Suc idx + k) (us ! k)) = Inl e"
      and "fetchAll env (Suc idx) us seen' (merged @ out) (fetched @ [u])
             = (Inl (Errorf (''fetch '' @ us ! k) e), (fetched @ [u]) @ take (Suc k) us)"
      by blast
    with Inr n j' have "Suc k \<le> j
          \<and> fetchSubscription (responses env (idx + Suc k) ((u # us) ! Suc k)) = Inl e
          \<and> fetchAll env idx (u # us) seen merged fetched
              = (Inl (Errorf (''fetch '' @ (u # us) ! Suc k) e), fetched @ take (Suc (Suc k)) (u # us))"
      by simp
    then show ?thesis by blast
  qed
qed

lemma fetchAll_entries:
  "fetchAll env idx us seen merged fetched = (Inr m, f) \<Longrightarrow> ob \<in> set m \<Longrightarrow>
     ob \<in> set merged
     \<or> (\<exists>j < length us. \<exists>items.
           fetchSubscription (responses env (idx + j) (us ! j)) = Inr items \<and> comesFrom items ob)"
proof (induction us arbitrary: idx seen merged fetched)
  case Nil
  then show ?case by simp
next
  case (Cons u us)
  show ?case
  proof (cases "fetchSubscription (responses env idx u)")
    case (Inl e)
    with Cons.prems show ?thesis by simp
  next
    case (Inr items)
    obtain out seen' where n: "normalizeOutbounds items (''sub'' @ fmtInt (int idx + 1) @ ''-'') seen
                                 = (out, seen')"
      by (cases "normalizeOutbounds items (''sub'' @ fmtInt (int idx + 1) @ ''-'') seen") auto
    with Inr Cons.prems(1)
    have "fetchAll env (Suc idx) us seen' (merged @ out) (fetched @ [u]) = (Inr m, f)" by simp
    from Cons.IH [OF this Cons.prems(2)]
    consider "ob \<in> set merged" | "ob \<in> set out"
      | j items' where "j < length us"
          "fetchSubscription (responses env (Suc idx + j) (us ! j)) = Inr items'"
          "comesFrom items' ob"
      by auto
    then show ?thesis
    proof cases
      case 1
      then show ?thesis by simp
    next
      case 2
      with n have "ob \<in> set (fst (normalizeOutbounds items (''sub'' @ fmtInt (int idx + 1) @ ''-'') seen))"
        by simp
      from normalizeOutbounds_comesFrom [OF Inr this]
      have "0 < length (u # us) \<and> fetchSubscription (responses env (idx + 0) ((u # us) ! 0)) = Inr items
              \<and> comesFrom items ob"
        using Inr by simp
      then show ?thesis by blast
    next
      case 3
      then have "Suc j < length (u # us)
              \<and> fetchSubscription (responses env (idx + Suc j) ((u # us) ! Suc j)) = Inr items'
              \<and> comesFrom items' ob"
        by simp
      then show ?thesis by blast
    qed
  qed
qed

lemma fetchAll_fetched:
  "\<exists>k \<le> length us. snd (fetchAll env idx us seen merged fetched) = fetched @ take k us"
proof (cases "\<forall>j < length us. \<not> isl (fetchSubscription (responses env (idx + j) (us ! j)))")
  case True
  from fetchAll_ok [OF this, of seen merged fetched]
  have "snd (fetchAll env idx us seen merged fetched) = fetched @ take (length us) us" by auto
  then show ?thesis by blast
next
  case False
  then obtain j where "j < length us"
    and "isl (fetchSubscription (responses env (idx + j) (us ! j)))" by blast
  from fetchAll_fail [OF this, of seen merged fetched]
  obtain k where "k \<le> j"
    and "snd (fetchAll env idx us seen merged fetched) = fetched @ take (Suc k) us" by auto
  with \<open>j < length us\<close> have "Suc k \<le> length us
    \<and> snd (fetchAll env idx us seen merged fetched) = fetched @ take (Suc k) us" by simp
  then show ?thesis by blast
qed


lemma load_cached:
  "usableCache c = Some out \<Longrightarrow> loadOrFetchOutbounds env urls c = (Inr out, c, [])"
  by (simp add: loadOrFetchOutbounds_def)

lemma load_fetched:
  "usableCache c = None \<Longrightarrow>
     loadOrFetchOutbounds env urls c =
       (case fetchAll env 0 urls [] [] [] of
          (Inl e, fetched) \<Rightarrow> (Inl e, c, fetched)
        | (Inr merged, fetched) \<Rightarrow>
            if merged = [] then (Inl (Msg ''subscriptions returned no outbounds''), c, fetched)
            else (case writeCacheErr env of
                    Some e \<Rightarrow> (Inl e, c, fetched)
                  | None \<Rightarrow> (Inr merged, Cache merged, fetched)))"
  by (simp add: loadOrFetchOutbounds_def)

lemma load_fetched_urls:
  assumes "usableCache c = None"
  shows "snd (snd (loadOrFetchOutbounds env urls c)) = snd (fetchAll env 0 urls [] [] [])"
  using assms by (simp add: load_fetched split: prod.splits sum.splits option.splits)

lemma load_success:
  assumes n: "usableCache c = None" and r: "fst (loadOrFetchOutbounds env urls c) = Inr merged"
  shows "fst (fetchAll env 0 urls [] [] []) = Inr merged" and "merged \<noteq> []"
    and "writeCacheErr env = None" and "fst (snd (loadOrFetchOutbounds env urls c)) = Cache merged"
  using r unfolding load_fetched [OF n]
  by (auto split: prod.splits sum.splits option.splits if_splits)

lemma load_failure:
  assumes n: "usableCache c = None" and r: "isl (fst (loadOrFetchOutbounds env urls c))"
  shows "fst (snd (loadOrFetchOutbounds env urls c)) = c"
  using r unfolding load_fetched [OF n]
  by (auto split: prod.splits sum.splits option.splits if_splits)

lemma load_empty:
  assumes n: "usableCache c = None" and r: "fst (fetchAll env 0 urls [] [] []) = Inr []"
  shows "isl (fst (loadOrFetchOutbounds env urls c))"
  using r unfolding load_fetched [OF n]
  by (auto split: prod.splits sum.splits option.splits if_splits)

lemma load_fetch_failed:
  assumes n: "usableCache c = None" and i: "idx < length urls" and f: "fetchFails env urls idx"
  shows "\<exists>k e. k \<le> idx \<and> fetchSubscription (responses env k (urls ! k)) = Inl e
           \<and> loadOrFetchOutbounds env urls c
               = (Inl (Errorf (''fetch '' @ urls ! k) e), c, take (Suc k) urls)"
proof -
  from f have "isl (fetchSubscription (responses env (0 + idx) (urls ! idx)))"
    by (simp add: fetchFails_def)
  from fetchAll_fail [OF i this, of "[]" "[]" "[]"]
  obtain k e where "k \<le> idx" and "fetchSubscription (responses env k (urls ! k)) = Inl e"
    and "fetchAll env 0 urls [] [] [] = (Inl (Errorf (''fetch '' @ urls ! k) e), take (Suc k) urls)"
    by auto
  then have "k \<le> idx \<and> fetchSubscription (responses env k (urls ! k)) = Inl e
           \<and> loadOrFetchOutbounds env urls c
               = (Inl (Errorf (''fetch '' @ urls ! k) e), c, take (Suc k) urls)"
    by (simp add: load_fetched [OF n])
  then show ?thesis by blast
qed

lemma load_all_fetched:
  assumes n: "usableCache c = None" and a: "\<forall>idx < length urls. \<not> fetchFails env urls idx"
  shows "snd (snd (loadOrFetchOutbounds env urls c)) = urls"
proof -
  from a have "\<forall>j < length urls. \<not> isl (fetchSubscription (responses env (0 + j) (urls ! j)))"
    by (simp add: fetchFails_def)
  from fetchAll_ok [OF this, of "[]" "[]" "[]"] show ?thesis
    by (auto simp: load_fetched_urls [OF n])
qed

text \<open>
  C7. A load returns the cache, without a fetch, when the cache is valid and holds a real
  outbound. Otherwise it fetches the URLs in their listed order, all of them when no fetch
  fails; when the fetch of a URL fails, the load fails with the error of the first such URL
  and fetches no further; it fails as well when the merged list is empty; a load that fails
  leaves the cache as it was and returns no outbound; and a load that succeeds has fetched
  every URL, returns a merged list that is not empty, and has stored that list in the cache.
\<close>

theorem loadOrFetchOutbounds_all_or_nothing:
  "(usableCache c = Some out \<longrightarrow> loadOrFetchOutbounds env urls c = (Inr out, c, []))
   \<and> (usableCache c = None \<longrightarrow>
        (\<exists>k \<le> length urls. snd (snd (loadOrFetchOutbounds env urls c)) = take k urls)
      \<and> ((\<forall>idx < length urls. \<not> fetchFails env urls idx)
            \<longrightarrow> snd (snd (loadOrFetchOutbounds env urls c)) = urls)
      \<and> (\<forall>idx < length urls. fetchFails env urls idx \<longrightarrow>
            (\<exists>k e. k \<le> idx \<and> fetchSubscription (responses env k (urls ! k)) = Inl e
               \<and> loadOrFetchOutbounds env urls c
                    = (Inl (Errorf (''fetch '' @ urls ! k) e), c, take (Suc k) urls)))
      \<and> (fst (fetchAll env 0 urls [] [] []) = Inr []
            \<longrightarrow> isl (fst (loadOrFetchOutbounds env urls c)))
      \<and> (isl (fst (loadOrFetchOutbounds env urls c))
            \<longrightarrow> fst (snd (loadOrFetchOutbounds env urls c)) = c)
      \<and> (\<forall>merged. fst (loadOrFetchOutbounds env urls c) = Inr merged \<longrightarrow>
            merged \<noteq> [] \<and> fst (fetchAll env 0 urls [] [] []) = Inr merged
            \<and> (\<forall>idx < length urls. \<not> fetchFails env urls idx)
            \<and> writeCacheErr env = None
            \<and> fst (snd (loadOrFetchOutbounds env urls c)) = Cache merged
            \<and> snd (snd (loadOrFetchOutbounds env urls c)) = urls))"
proof (intro conjI impI allI)
  assume "usableCache c = Some out"
  then show "loadOrFetchOutbounds env urls c = (Inr out, c, [])" by (rule load_cached)
next
  assume n: "usableCache c = None"
  from fetchAll_fetched [of urls env 0 "[]" "[]" "[]"]
  show "\<exists>k \<le> length urls. snd (snd (loadOrFetchOutbounds env urls c)) = take k urls"
    by (simp add: load_fetched_urls [OF n])
next
  assume n: "usableCache c = None" and "\<forall>idx < length urls. \<not> fetchFails env urls idx"
  then show "snd (snd (loadOrFetchOutbounds env urls c)) = urls" by (rule load_all_fetched)
next
  fix idx
  assume n: "usableCache c = None" and "idx < length urls" and "fetchFails env urls idx"
  then show "\<exists>k e. k \<le> idx \<and> fetchSubscription (responses env k (urls ! k)) = Inl e
               \<and> loadOrFetchOutbounds env urls c
                    = (Inl (Errorf (''fetch '' @ urls ! k) e), c, take (Suc k) urls)"
    by (rule load_fetch_failed)
next
  assume "usableCache c = None" and "fst (fetchAll env 0 urls [] [] []) = Inr []"
  then show "isl (fst (loadOrFetchOutbounds env urls c))" by (rule load_empty)
next
  assume "usableCache c = None" and "isl (fst (loadOrFetchOutbounds env urls c))"
  then show "fst (snd (loadOrFetchOutbounds env urls c)) = c" by (rule load_failure)
next
  fix merged
  assume n: "usableCache c = None" and r: "fst (loadOrFetchOutbounds env urls c) = Inr merged"
  show "merged \<noteq> []" by (rule load_success(2) [OF n r])
  show "fst (fetchAll env 0 urls [] [] []) = Inr merged" by (rule load_success(1) [OF n r])
  show "writeCacheErr env = None" by (rule load_success(3) [OF n r])
  show "fst (snd (loadOrFetchOutbounds env urls c)) = Cache merged" by (rule load_success(4) [OF n r])
  show ok: "\<not> fetchFails env urls idx" if "idx < length urls" for idx
  proof
    assume "fetchFails env urls idx"
    from load_fetch_failed [OF n that this] r show False by auto
  qed
  then show "snd (snd (loadOrFetchOutbounds env urls c)) = urls"
    using load_all_fetched [OF n] by blast
qed

theorem loadOrFetchOutbounds_all_or_nothing_witness:
  "usableCache cachedNodes
     = Some [[(''type'', JString ''vmess''), (''tag'', JString ''sub1-a'')],
             [(''type'', JString ''trojan''), (''tag'', JString ''sub1-b'')]]
   \<and> loadOrFetchOutbounds flakySubs [''u1'', ''u2'', ''u3''] cachedNodes
       = (Inr [[(''type'', JString ''vmess''), (''tag'', JString ''sub1-a'')],
               [(''type'', JString ''trojan''), (''tag'', JString ''sub1-b'')]], cachedNodes, [])
   \<and> usableCache NoCache = None
   \<and> fetchFails flakySubs [''u1'', ''u2'', ''u3''] 1
   \<and> isl (fst (loadOrFetchOutbounds flakySubs [''u1'', ''u2'', ''u3''] NoCache))
   \<and> fst (snd (loadOrFetchOutbounds flakySubs [''u1'', ''u2'', ''u3''] NoCache)) = NoCache
   \<and> fst (loadOrFetchOutbounds onlineSubs [''u1'', ''u2''] NoCache)
       = Inr [vmess ''sub1-tokyo'', vmess ''sub1-tokyo-2'', vmess ''sub2-tokyo'', vmess ''sub2-tokyo-2'']
   \<and> fst (snd (loadOrFetchOutbounds onlineSubs [''u1'', ''u2''] NoCache))
       = Cache [vmess ''sub1-tokyo'', vmess ''sub1-tokyo-2'', vmess ''sub2-tokyo'', vmess ''sub2-tokyo-2'']
   \<and> snd (snd (loadOrFetchOutbounds onlineSubs [''u1'', ''u2''] NoCache)) = [''u1'', ''u2'']
   \<and> fst (fetchAll emptySubs 0 [''u1''] [] [] []) = Inr []
   \<and> isl (fst (loadOrFetchOutbounds emptySubs [''u1''] NoCache))"
proof -
  let ?X = "[[(''type'', JString ''vmess''), (''tag'', JString ''sub1-a'')],
             [(''type'', JString ''trojan''), (''tag'', JString ''sub1-b'')]]"
  let ?M = "[vmess ''sub1-tokyo'', vmess ''sub1-tokyo-2'', vmess ''sub2-tokyo'', vmess ''sub2-tokyo-2'']"
  let ?u3 = "[''u1'', ''u2'', ''u3'']"
  let ?u2 = "[''u1'', ''u2'']"
  have u: "usableCache cachedNodes = Some ?X" by code_simp
  have n: "usableCache NoCache = None" by (simp add: usableCache_def)
  have f: "fetchFails flakySubs ?u3 1" by code_simp
  have i: "(1::nat) < length ?u3" by simp
  have r: "fst (loadOrFetchOutbounds onlineSubs ?u2 NoCache) = Inr ?M" by code_simp
  note T1 = loadOrFetchOutbounds_all_or_nothing [of cachedNodes ?X flakySubs ?u3]
  note T2 = loadOrFetchOutbounds_all_or_nothing [of NoCache ?X flakySubs ?u3]
  note T3 = loadOrFetchOutbounds_all_or_nothing [of NoCache ?X onlineSubs ?u2]
  from T1 u have a: "loadOrFetchOutbounds flakySubs ?u3 cachedNodes = (Inr ?X, cachedNodes, [])"
    by blast
  from T2 n i f obtain k e where
    "loadOrFetchOutbounds flakySubs ?u3 NoCache
       = (Inl (Errorf (''fetch '' @ ?u3 ! k) e), NoCache, take (Suc k) ?u3)"
    by blast
  then have b: "isl (fst (loadOrFetchOutbounds flakySubs ?u3 NoCache))"
    and c: "fst (snd (loadOrFetchOutbounds flakySubs ?u3 NoCache)) = NoCache"
    by simp_all
  from T3 n r have d: "fst (snd (loadOrFetchOutbounds onlineSubs ?u2 NoCache)) = Cache ?M"
    and e: "snd (snd (loadOrFetchOutbounds onlineSubs ?u2 NoCache)) = ?u2"
    by blast+
  have m: "fst (fetchAll emptySubs 0 [''u1''] [] [] []) = Inr []" by code_simp
  from loadOrFetchOutbounds_all_or_nothing [of NoCache ?X emptySubs "[''u1'']"] n m
  have g: "isl (fst (loadOrFetchOutbounds emptySubs [''u1''] NoCache))"
    by blast
  from u a n f b c r d e m g show ?thesis by (intro conjI)
qed

text \<open>
  C8. Every entry of a fetched and merged list has a type that \<open>isRealOutboundType\<close> accepts,
  so that, trimmed and in lower case, it is none of the meta types and not empty; and the
  entry is an item that \<open>fetchSubscription\<close> returned for one of the URLs, with only its tag
  replaced, whose display name, as it stood in the subscription, holds no keyword of the
  blacklist.
\<close>

theorem merged_outbounds_are_real_and_clean:
  assumes n: "usableCache c = None"
    and r: "fst (loadOrFetchOutbounds env urls c) = Inr merged"
    and m: "ob \<in> set merged"
  shows "isRealOutboundType (typeOf ob)
       \<and> ToLower (TrimSpace (typeOf ob)) \<notin> set metaTypes
       \<and> ToLower (TrimSpace (typeOf ob)) \<noteq> []
       \<and> (\<exists>idx < length urls. \<exists>items.
             fetchSubscription (responses env idx (urls ! idx)) = Inr items \<and> comesFrom items ob)"
proof -
  obtain f where "fetchAll env 0 urls [] [] [] = (Inr merged, f)"
    using load_success(1) [OF n r] by (cases "fetchAll env 0 urls [] [] []") auto
  from fetchAll_entries [OF this m]
  obtain j items where j: "j < length urls"
    and f: "fetchSubscription (responses env j (urls ! j)) = Inr items"
    and c: "comesFrom items ob" by auto
  from c have t: "isRealOutboundType (typeOf ob)"
    by (auto simp: comesFrom_def typeOf_retagged)
  then have "ToLower (TrimSpace (typeOf ob)) \<notin> set metaTypes"
    and "ToLower (TrimSpace (typeOf ob)) \<noteq> []"
    by (auto simp: isRealOutboundType_def Let_def split: if_splits)
  with t j f c show ?thesis by blast
qed

theorem merged_outbounds_are_real_and_clean_witness:
  "usableCache NoCache = None
   \<and> fst (loadOrFetchOutbounds onlineSubs [''u1''] NoCache)
       = Inr [vmess ''sub1-tokyo'', vmess ''sub1-tokyo-2'']
   \<and> vmess ''sub1-tokyo'' \<in> set [vmess ''sub1-tokyo'', vmess ''sub1-tokyo-2'']
   \<and> isRealOutboundType (typeOf (vmess ''sub1-tokyo''))
   \<and> ToLower (TrimSpace (typeOf (vmess ''sub1-tokyo''))) \<notin> set metaTypes
   \<and> (\<exists>idx < length [''u1'']. \<exists>items.
         fetchSubscription (responses onlineSubs idx ([''u1''] ! idx)) = Inr items
         \<and> comesFrom items (vmess ''sub1-tokyo''))"
proof -
  have n: "usableCache NoCache = None" by (simp add: usableCache_def)
  have r: "fst (loadOrFetchOutbounds onlineSubs [''u1''] NoCache)
             = Inr [vmess ''sub1-tokyo'', vmess ''sub1-tokyo-2'']"
    by code_simp
  have m: "vmess ''sub1-tokyo'' \<in> set [vmess ''sub1-tokyo'', vmess ''sub1-tokyo-2'']"
    by simp
  note T = merged_outbounds_are_real_and_clean [OF n r m]
  from T have a: "isRealOutboundType (typeOf (vmess ''sub1-tokyo''))"
    and b: "ToLower (TrimSpace (typeOf (vmess ''sub1-tokyo''))) \<notin> set metaTypes"
    and c: "\<exists>idx < length [''u1'']. \<exists>items.
         fetchSubscription (responses onlineSubs idx ([''u1''] ! idx)) = Inr items
         \<and> comesFrom items (vmess ''sub1-tokyo'')"
    by blast+
  from n r m a b c show ?thesis by (intro conjI)
qed

text \<open>
  C9. The outbounds with the tags \<open>a\<close>, \<open>a\<close> and \<open>a-2\<close> of one subscription get the tags
  \<open>sub1-a\<close>, \<open>sub1-a-2\<close> and \<open>sub1-a-2\<close>: the prefix is added and the second \<open>a\<close> gets the suffix
  of its count, and the tag so made is the prefixed tag of the third, which is not counted
  as seen; the resulting tags are not distinct, against the claim.
\<close>

theorem normalizeOutbounds_repeats_tag:
  "map tagOf collidingItems = [''a'', ''a'', ''a-2'']
   \<and> map tagOf (fst (normalizeOutbounds collidingItems ''sub1-'' []))
       = [''sub1-a'', ''sub1-a-2'', ''sub1-a-2'']
   \<and> \<not> distinct (map tagOf (fst (normalizeOutbounds collidingItems ''sub1-'' [])))"
proof -
  have a: "map tagOf collidingItems = [''a'', ''a'', ''a-2'']" by code_simp
  have b: "map tagOf (fst (normalizeOutbounds collidingItems ''sub1-'' []))
             = [''sub1-a'', ''sub1-a-2'', ''sub1-a-2'']" by code_simp
  have c: "\<not> distinct (map tagOf (fst (normalizeOutbounds collidingItems ''sub1-'' [])))"
    unfolding b by simp
  from a b c show ?thesis by (intro conjI)
qed

end
